theory Spec2Isabelle
  imports Complex_Main "HOL-Library.Multiset"
begin

section \<open>Values\<close>

text \<open>
  The detector reads its measurements with \<^verbatim>\<open>json.load\<close>, so a metrics payload holds
  JSON values. An object is kept as the list of its items, in insertion order, as a Python
  dict iterates them.

  Numbers are exact: a Python float is modelled as a real number. Rounding, overflow,
  infinities and NaN of binary floating point are outside this model.
\<close>

datatype json =
    JNull
  | JBool bool
  | JInt int
  | JFloat real
  | JStr string
  | JList "json list"
  | JObj "(string \<times> json) list"

datatype py_exn =
    LoadError
  | KeyError
  | TypeError
  | AttributeError
  | ZeroDivisionError
  | StatisticsError
  | OverflowError
  | IntegrityError
  | InterfaceError

text \<open>
  \<^verbatim>\<open>isinstance(value, (int, float))\<close> together with the number it stands for. Python's
  \<^verbatim>\<open>bool\<close> is a subclass of \<^verbatim>\<open>int\<close>, so the test accepts \<^verbatim>\<open>True\<close> and \<^verbatim>\<open>False\<close>,
  which count as 1 and 0.
\<close>

fun number_value :: "json \<Rightarrow> real option" where
  "number_value (JBool b) = Some (if b then 1 else 0)"
| "number_value (JInt i) = Some (of_int i)"
| "number_value (JFloat x) = Some x"
| "number_value _ = None"

section \<open>The store\<close>

text \<open>
  The two tables of \<^verbatim>\<open>DB_SCHEMA\<close>. A table is the list of its rows in rowid order.
  \<^verbatim>\<open>metrics_json\<close> holds the payload itself rather than its serialisation. The store
  is what the open connection sees: commits, and the loss of writes not yet committed
  when the connection is closed, are not modelled.
\<close>

record benchmark_row =
  b_id :: nat
  b_test_name :: string
  b_commit_hash :: string
  b_timestamp :: real
  b_metrics_json :: json

record metric_row =
  m_benchmark_id :: nat
  m_metric_name :: string
  m_value :: real
  m_unit :: "string option"

record store =
  benchmarks_table :: "benchmark_row list"
  metrics_table :: "metric_row list"

definition empty_store :: store where
  "empty_store = \<lparr>benchmarks_table = [], metrics_table = []\<rparr>"

text \<open>
  SQLite gives a row inserted without an id the rowid one larger than the largest rowid
  in the table before the insert, and 1 in an empty table. Ids are natural numbers without
  bound: what SQLite does once the largest 64-bit rowid is taken is outside the model.
\<close>

definition next_rowid :: "benchmark_row list \<Rightarrow> nat" where
  "next_rowid rows = foldr max (map b_id rows) 0 + 1"

text \<open>
  \<^verbatim>\<open>INSERT OR REPLACE INTO benchmarks\<close>: the rowid is chosen first, then the row that
  conflicts on \<^verbatim>\<open>UNIQUE(test_name, commit_hash)\<close> is deleted and the new row inserted.
  Returns \<^verbatim>\<open>lastrowid\<close> with the store.
\<close>

definition insert_or_replace ::
  "store \<Rightarrow> string \<Rightarrow> string \<Rightarrow> real \<Rightarrow> json \<Rightarrow> nat \<times> store" where
  "insert_or_replace db t c ts payload =
     (let rid = next_rowid (benchmarks_table db);
          kept = filter (\<lambda>r. \<not> (b_test_name r = t \<and> b_commit_hash r = c)) (benchmarks_table db);
          row = \<lparr>b_id = rid, b_test_name = t, b_commit_hash = c,
                 b_timestamp = ts, b_metrics_json = payload\<rparr>
      in (rid, db\<lparr>benchmarks_table := kept @ [row]\<rparr>))"

text \<open>The loop of \<^verbatim>\<open>add_measurement\<close> over \<^verbatim>\<open>metrics.items()\<close>.\<close>

fun store_metrics :: "store \<Rightarrow> nat \<Rightarrow> (string \<times> json) list \<Rightarrow> store" where
  "store_metrics db bid [] = db"
| "store_metrics db bid ((metric_name, v) # rest) =
     (case number_value v of
        Some x \<Rightarrow>
          store_metrics
            (db\<lparr>metrics_table := metrics_table db @
               [\<lparr>m_benchmark_id = bid, m_metric_name = metric_name, m_value = x, m_unit = None\<rparr>]\<rparr>)
            bid rest
      | None \<Rightarrow> store_metrics db bid rest)"

text \<open>
  \<^verbatim>\<open>add_measurement(test_name, commit_hash, metrics)\<close>. The reading of \<^verbatim>\<open>time.time()\<close> is
  the argument \<open>now\<close>. A payload that is not an object has no \<^verbatim>\<open>items\<close>: the call raises
  after the benchmark row has been written.
\<close>

definition add_measurement ::
  "store \<Rightarrow> string \<Rightarrow> string \<Rightarrow> json \<Rightarrow> real \<Rightarrow> py_exn option \<times> store" where
  "add_measurement db t c metrics now =
     (case insert_or_replace db t c now metrics of
        (benchmark_id, db1) \<Rightarrow>
          (case metrics of
             JObj items \<Rightarrow> (None, store_metrics db1 benchmark_id items)
           | _ \<Rightarrow> (Some AttributeError, db1)))"

section \<open>Baseline\<close>

text \<open>
  The join of the query in \<^verbatim>\<open>get_baseline\<close>: SQLite scans \<^verbatim>\<open>metrics\<close> and looks each
  row's benchmark up by its id.
\<close>

definition joined :: "store \<Rightarrow> (metric_row \<times> benchmark_row) list" where
  "joined db =
     concat (map (\<lambda>m. map (Pair m) (filter (\<lambda>b. b_id b = m_benchmark_id m) (benchmarks_table db)))
                 (metrics_table db))"

text \<open>
  The \<^verbatim>\<open>SELECT value ... WHERE ... ORDER BY timestamp DESC LIMIT ?\<close> of \<^verbatim>\<open>get_baseline\<close>
  with the list comprehension over its rows. Rows with the same timestamp keep their scan
  order (SQL leaves their order open). The window is bound to the \<^verbatim>\<open>LIMIT\<close> as a
  64-bit integer: \<^verbatim>\<open>execute\<close> raises for a Python int outside that range, before any
  row is fetched. A negative \<^verbatim>\<open>LIMIT\<close> is no limit in SQLite.
\<close>

definition matching :: "store \<Rightarrow> string \<Rightarrow> string \<Rightarrow> (metric_row \<times> benchmark_row) list" where
  "matching db t metric_name =
     filter (\<lambda>(m, b). b_test_name b = t \<and> m_metric_name m = metric_name) (joined db)"

definition by_timestamp_desc ::
  "(metric_row \<times> benchmark_row) list \<Rightarrow> (metric_row \<times> benchmark_row) list" where
  "by_timestamp_desc rows = sort_key (\<lambda>(m, b). - b_timestamp b) rows"

definition fits_int64 :: "int \<Rightarrow> bool" where
  "fits_int64 n \<longleftrightarrow> - 9223372036854775808 \<le> n \<and> n < 9223372036854775808"

definition limit :: "int \<Rightarrow> 'a list \<Rightarrow> py_exn + 'a list" where
  "limit n rows =
     (if \<not> fits_int64 n then Inl OverflowError
      else if n < 0 then Inr rows
      else Inr (take (nat n) rows))"

definition history :: "store \<Rightarrow> string \<Rightarrow> string \<Rightarrow> int \<Rightarrow> py_exn + real list" where
  "history db t metric_name window =
     (case limit window (by_timestamp_desc (matching db t metric_name)) of
        Inl e \<Rightarrow> Inl e
      | Inr rows \<Rightarrow> Inr (map (\<lambda>(m, b). m_value m) rows))"

text \<open>
  \<^verbatim>\<open>statistics.median\<close> of the standard library: sort, then the middle element, or the
  mean of the two middle elements when the count is even. It raises on no data.
\<close>

definition median :: "real list \<Rightarrow> py_exn + real" where
  "median data =
     (let s = sort data; n = length s in
      if n = 0 then Inl StatisticsError
      else if n mod 2 = 1 then Inr (s ! (n div 2))
      else Inr ((s ! (n div 2 - 1) + s ! (n div 2)) / 2))"

text \<open>Lines 72 to 75 of \<^verbatim>\<open>get_baseline\<close>: from the fetched values to the baseline.\<close>

definition baseline_of :: "real list \<Rightarrow> py_exn + real option" where
  "baseline_of vs =
     (if vs = [] then Inr None
      else case median vs of Inl e \<Rightarrow> Inl e | Inr m \<Rightarrow> Inr (Some m))"

definition get_baseline :: "store \<Rightarrow> string \<Rightarrow> string \<Rightarrow> int \<Rightarrow> py_exn + real option" where
  "get_baseline db t metric_name window =
     (case history db t metric_name window of
        Inl e \<Rightarrow> Inl e
      | Inr values \<Rightarrow> baseline_of values)"

section \<open>Classification\<close>

text \<open>
  A regression finding: the dict that \<^verbatim>\<open>check_regression\<close> appends. The entry
  \<^verbatim>\<open>'new'\<close> is kept as the number it stands for; its one use, the \<^verbatim>\<open>.3f\<close> format of the
  report, prints an int or a bool as the float it equals.
\<close>

record finding =
  f_test :: string
  f_metric :: string
  f_baseline :: real
  f_new :: real
  f_regression_pct :: real

text \<open>
  Lines 91 to 99: the comparison of one numeric \<^verbatim>\<open>new_value\<close> with an established
  baseline. \<open>Inr None\<close> is no finding. The quotient \<^verbatim>\<open>(new_value - baseline) / baseline\<close>
  divides by a float, which raises when that float is zero.
\<close>

definition classify ::
  "string \<Rightarrow> string \<Rightarrow> real \<Rightarrow> real \<Rightarrow> real \<Rightarrow> py_exn + finding option" where
  "classify t metric_name baseline new_value threshold =
     (if new_value > baseline * (1 + threshold) then
        (if baseline = 0 then Inl ZeroDivisionError
         else
           (let regression = (new_value - baseline) / baseline in
            Inr (Some \<lparr>f_test = t, f_metric = metric_name, f_baseline = baseline,
                       f_new = new_value, f_regression_pct = regression * 100\<rparr>)))
      else Inr None)"

text \<open>
  The loop of \<^verbatim>\<open>check_regression\<close> over \<^verbatim>\<open>metrics.items()\<close>, with the list
  \<^verbatim>\<open>regressions\<close> built so far. The baseline is asked for with the default window of 5.
  An exception leaves the loop and the list is lost.
\<close>

fun check_items ::
  "store \<Rightarrow> string \<Rightarrow> real \<Rightarrow> (string \<times> json) list \<Rightarrow> finding list \<Rightarrow> py_exn + finding list" where
  "check_items db t threshold [] regressions = Inr regressions"
| "check_items db t threshold ((metric_name, v) # rest) regressions =
     (case number_value v of
        None \<Rightarrow> check_items db t threshold rest regressions
      | Some new_value \<Rightarrow>
          (case get_baseline db t metric_name 5 of
             Inl e \<Rightarrow> Inl e
           | Inr None \<Rightarrow> check_items db t threshold rest regressions
           | Inr (Some baseline) \<Rightarrow>
               (case classify t metric_name baseline new_value threshold of
                  Inl e \<Rightarrow> Inl e
                | Inr None \<Rightarrow> check_items db t threshold rest regressions
                | Inr (Some reg) \<Rightarrow> check_items db t threshold rest (regressions @ [reg]))))"

definition check_regression :: "store \<Rightarrow> string \<Rightarrow> json \<Rightarrow> real \<Rightarrow> py_exn + finding list" where
  "check_regression db t metrics threshold =
     (case metrics of
        JObj items \<Rightarrow> check_items db t threshold items []
      | _ \<Rightarrow> Inl AttributeError)"

section \<open>Report\<close>

text \<open>
  Fixed-point formatting, \<^verbatim>\<open>format(x, '.<prec>f')\<close>: the decimal with \<open>prec\<close> digits
  after the point that is nearest to \<open>x\<close>, a tie going to the even last digit.
\<close>

definition digit_char :: "nat \<Rightarrow> char" where
  "digit_char d = ''0123456789'' ! d"

fun decimal :: "nat \<Rightarrow> string" where
  "decimal n = (if n < 10 then [digit_char n] else decimal (n div 10) @ [digit_char (n mod 10)])"

declare decimal.simps [simp del]

definition zero_pad :: "nat \<Rightarrow> string \<Rightarrow> string" where
  "zero_pad w s = replicate (w - length s) (CHR ''0'') @ s"

definition round_half_even :: "real \<Rightarrow> int" where
  "round_half_even x =
     (let f = \<lfloor>x\<rfloor>; r = x - of_int f in
      if r < 1 / 2 then f
      else if r > 1 / 2 then f + 1
      else if even f then f else f + 1)"

definition format_f :: "nat \<Rightarrow> real \<Rightarrow> string" where
  "format_f prec x =
     (let n = nat (round_half_even (\<bar>x\<bar> * 10 ^ prec));
          int_part = n div 10 ^ prec;
          frac_part = n mod 10 ^ prec
      in (if x < 0 then ''-'' else [])
         @ decimal int_part
         @ (if prec = 0 then [] else ''.'' @ zero_pad prec (decimal frac_part)))"

text \<open>
  The text that \<^verbatim>\<open>generate_report\<close> writes. The check mark and the cross are the three
  bytes each of their UTF-8 encoding.
\<close>

definition newline :: string where
  "newline = [CHR 0x0A]"

definition success_report :: string where
  "success_report =
     ''# '' @ [CHR 0xE2, CHR 0x9C, CHR 0x85] @ '' No Performance Regressions Detected'' @ newline"

definition report_header :: string where
  "report_header =
     ''# '' @ [CHR 0xE2, CHR 0x9D, CHR 0x8C] @ '' Performance Regressions Detected'' @ newline @ newline
     @ ''| Test | Metric | Baseline | New | Regression |'' @ newline
     @ ''|------|--------|----------|-----|------------|'' @ newline"

definition failure_marker :: string where
  "failure_marker = newline @ ''**REGRESSION**''"

definition report_row :: "finding \<Rightarrow> string" where
  "report_row reg =
     ''| '' @ f_test reg @ '' | '' @ f_metric reg @ '' | '' @ format_f 3 (f_baseline reg) @ '' | ''
     @ format_f 3 (f_new reg) @ '' | +'' @ format_f 1 (f_regression_pct reg) @ ''% |'' @ newline"

text \<open>The writes of the loop over \<^verbatim>\<open>regressions\<close>, after what has been written so far.\<close>

fun write_rows :: "string \<Rightarrow> finding list \<Rightarrow> string" where
  "write_rows f [] = f"
| "write_rows f (reg # rest) = write_rows (f @ report_row reg) rest"

definition report_text :: "finding list \<Rightarrow> string" where
  "report_text regressions =
     (if regressions = [] then success_report
      else write_rows report_header regressions @ failure_marker)"

text \<open>
  \<^verbatim>\<open>generate_report(regressions, output_file)\<close> on a file system that maps a path to the
  content of its file: opening for writing creates or truncates the file.
\<close>

definition generate_report ::
  "(string \<rightharpoonup> string) \<Rightarrow> finding list \<Rightarrow> string \<Rightarrow> (string \<rightharpoonup> string)" where
  "generate_report fs regressions output_file = fs(output_file \<mapsto> report_text regressions)"

section \<open>The run\<close>

text \<open>
  What \<^verbatim>\<open>main\<close> prints, as events: the warning and the two summaries go to the standard
  output, the error of an artifact to the standard error stream.
\<close>

datatype message =
    Warning_no_files string
  | Error_processing string py_exn
  | Found_regressions nat
  | No_regressions

text \<open>
  An input file as the loop sees it: its path, the stem of its name, and what
  \<^verbatim>\<open>open\<close> with \<^verbatim>\<open>json.load\<close> gives for it, a value or an exception.
\<close>

record artifact =
  art_path :: string
  art_stem :: string
  art_load :: "py_exn + json"

record arguments =
  a_new :: string
  a_threshold :: real
  a_output :: string
  a_commit :: string

text \<open>
  The state of a run: the store behind the open connection, the list
  \<^verbatim>\<open>all_regressions\<close>, the number of readings of the clock made so far, the two output
  streams and the file system that the report is written to.
\<close>

record world =
  w_store :: store
  w_all_regressions :: "finding list"
  w_clock :: nat
  w_stdout :: "message list"
  w_stderr :: "message list"
  w_files :: "string \<rightharpoonup> string"

text \<open>\<^verbatim>\<open>d.get(key, default)\<close> on the items of a dict.\<close>

definition get_or :: "(string \<times> json) list \<Rightarrow> string \<Rightarrow> json \<Rightarrow> json" where
  "get_or items k d = (case map_of items k of Some v \<Rightarrow> v | None \<Rightarrow> d)"

text \<open>
  Binding a test name to the \<^verbatim>\<open>TEXT NOT NULL\<close> column. A null violates the constraint,
  a list or an object cannot be bound. SQLite coerces a number or a boolean to text; the
  model does not follow that coercion and treats such a name as one that cannot be bound.
\<close>

fun bind_text :: "json \<Rightarrow> py_exn + string" where
  "bind_text (JStr s) = Inr s"
| "bind_text JNull = Inl IntegrityError"
| "bind_text _ = Inl InterfaceError"

text \<open>
  \<^verbatim>\<open>detector.add_measurement(test_name, args.commit, metrics)\<close> followed by
  \<^verbatim>\<open>detector.check_regression(test_name, metrics, args.threshold)\<close> and
  \<^verbatim>\<open>all_regressions.extend(regressions)\<close>. The clock is read first; \<open>clock k\<close> is its
  \<open>k\<close>-th reading. The first component of the result is the exception raised, if any.
\<close>

definition ingest ::
  "(nat \<Rightarrow> real) \<Rightarrow> arguments \<Rightarrow> world \<Rightarrow> json \<Rightarrow> json \<Rightarrow> py_exn option \<times> world" where
  "ingest clock a w name metrics =
     (let now = clock (w_clock w);
          w1 = w\<lparr>w_clock := w_clock w + 1\<rparr>
      in case bind_text name of
           Inl e \<Rightarrow> (Some e, w1)
         | Inr t \<Rightarrow>
             (case add_measurement (w_store w1) t (a_commit a) metrics now of
                (Some e, db) \<Rightarrow> (Some e, w1\<lparr>w_store := db\<rparr>)
              | (None, db) \<Rightarrow>
                  (case check_regression db t metrics (a_threshold a) of
                     Inl e \<Rightarrow> (Some e, w1\<lparr>w_store := db\<rparr>)
                   | Inr regressions \<Rightarrow>
                       (None, w1\<lparr>w_store := db,
                                 w_all_regressions := w_all_regressions w1 @ regressions\<rparr>))))"

text \<open>What \<^verbatim>\<open>for benchmark in data['benchmarks']\<close> iterates over.\<close>

fun iter_json :: "json \<Rightarrow> py_exn + json list" where
  "iter_json (JList xs) = Inr xs"
| "iter_json (JObj items) = Inr (map (\<lambda>(k, v). JStr k) items)"
| "iter_json (JStr s) = Inr (map (\<lambda>c. JStr [c]) s)"
| "iter_json _ = Inl TypeError"

text \<open>The loop over the entries of the Google Benchmark format.\<close>

fun process_benchmarks ::
  "(nat \<Rightarrow> real) \<Rightarrow> arguments \<Rightarrow> world \<Rightarrow> json list \<Rightarrow> py_exn option \<times> world" where
  "process_benchmarks clock a w [] = (None, w)"
| "process_benchmarks clock a w (benchmark # rest) =
     (case benchmark of
        JObj items \<Rightarrow>
          (case map_of items ''name'' of
             None \<Rightarrow> (Some KeyError, w)
           | Some test_name \<Rightarrow>
               (let metrics = JObj [(''real_time'', get_or items ''real_time'' (JInt 0)),
                                    (''cpu_time'', get_or items ''cpu_time'' (JInt 0)),
                                    (''iterations'', get_or items ''iterations'' (JInt 0))]
                in case ingest clock a w test_name metrics of
                     (Some e, w') \<Rightarrow> (Some e, w')
                   | (None, w') \<Rightarrow> process_benchmarks clock a w' rest))
      | _ \<Rightarrow> (Some TypeError, w))"

text \<open>\<^verbatim>\<open>'benchmarks' in s\<close> for a string \<open>s\<close>.\<close>

fun contains :: "string \<Rightarrow> string \<Rightarrow> bool" where
  "contains p [] = (p = [])"
| "contains p (c # cs) = (take (length p) (c # cs) = p \<or> contains p cs)"

text \<open>
  The body of the \<^verbatim>\<open>try\<close> block for one file. Data that is not an object raises
  before anything is written: at the membership test, at \<^verbatim>\<open>data['benchmarks']\<close> or at
  \<^verbatim>\<open>data.get\<close>.
\<close>

definition process_artifact ::
  "(nat \<Rightarrow> real) \<Rightarrow> arguments \<Rightarrow> world \<Rightarrow> artifact \<Rightarrow> py_exn option \<times> world" where
  "process_artifact clock a w art =
     (case art_load art of
        Inl e \<Rightarrow> (Some e, w)
      | Inr data \<Rightarrow>
          (case data of
             JObj items \<Rightarrow>
               (case map_of items ''benchmarks'' of
                  Some v \<Rightarrow>
                    (case iter_json v of
                       Inl e \<Rightarrow> (Some e, w)
                     | Inr entries \<Rightarrow> process_benchmarks clock a w entries)
                | None \<Rightarrow>
                    ingest clock a w (get_or items ''test_name'' (JStr (art_stem art)))
                      (get_or items ''metrics'' (JObj [])))
           | JList xs \<Rightarrow>
               (Some (if JStr ''benchmarks'' \<in> set xs then TypeError else AttributeError), w)
           | JStr s \<Rightarrow>
               (Some (if contains ''benchmarks'' s then TypeError else AttributeError), w)
           | _ \<Rightarrow> (Some TypeError, w)))"

text \<open>
  The loop over \<^verbatim>\<open>new_files\<close> with its \<^verbatim>\<open>try\<close> and \<^verbatim>\<open>except Exception\<close>: an exception
  is printed to the standard error stream and the loop goes on.
\<close>

fun process_files :: "(nat \<Rightarrow> real) \<Rightarrow> arguments \<Rightarrow> world \<Rightarrow> artifact list \<Rightarrow> world" where
  "process_files clock a w [] = w"
| "process_files clock a w (json_file # rest) =
     (case process_artifact clock a w json_file of
        (Some e, w') \<Rightarrow>
          process_files clock a
            (w'\<lparr>w_stderr := w_stderr w' @ [Error_processing (art_path json_file) e]\<rparr>) rest
      | (None, w') \<Rightarrow> process_files clock a w' rest)"

text \<open>
  \<^verbatim>\<open>main\<close>, from the glob result \<open>new_files\<close> on, in a world whose store is the database at
  \<^verbatim>\<open>args.baseline\<close>. Returns the exit code with the world it leaves.
\<close>

definition main :: "(nat \<Rightarrow> real) \<Rightarrow> arguments \<Rightarrow> artifact list \<Rightarrow> world \<Rightarrow> nat \<times> world" where
  "main clock a new_files w0 =
     (let w = w0\<lparr>w_all_regressions := []\<rparr> in
      if new_files = [] then
        (0, w\<lparr>w_stdout := w_stdout w @ [Warning_no_files (a_new a)]\<rparr>)
      else
        (let w1 = process_files clock a w new_files;
             w2 = w1\<lparr>w_files := generate_report (w_files w1) (w_all_regressions w1) (a_output a)\<rparr>
         in if w_all_regressions w2 \<noteq> [] then
              (1, w2\<lparr>w_stdout := w_stdout w2 @ [Found_regressions (length (w_all_regressions w2))]\<rparr>)
            else (0, w2\<lparr>w_stdout := w_stdout w2 @ [No_regressions]\<rparr>)))"

section \<open>Notions used in the properties\<close>

text \<open>
  What the schema and the rowid rule maintain: ids are unique, a pair of test and commit
  is unique, and no sample refers to an id that is still to be given out.
\<close>

definition store_inv :: "store \<Rightarrow> bool" where
  "store_inv db \<longleftrightarrow>
     distinct (map b_id (benchmarks_table db))
     \<and> distinct (map (\<lambda>r. (b_test_name r, b_commit_hash r)) (benchmarks_table db))
     \<and> list_all (\<lambda>m. m_benchmark_id m < next_rowid (benchmarks_table db)) (metrics_table db)"

text \<open>A sequence of calls of \<^verbatim>\<open>add_measurement\<close>, each with its reading of the clock.\<close>

fun record_all :: "store \<Rightarrow> (string \<times> string \<times> json \<times> real) list \<Rightarrow> store" where
  "record_all db [] = db"
| "record_all db ((t, c, metrics, now) # rest) =
     record_all (snd (add_measurement db t c metrics now)) rest"

text \<open>The benchmark records of a test and commit, and the samples joined to them.\<close>

definition records_of :: "store \<Rightarrow> string \<Rightarrow> string \<Rightarrow> benchmark_row list" where
  "records_of db t c =
     filter (\<lambda>r. b_test_name r = t \<and> b_commit_hash r = c) (benchmarks_table db)"

definition samples_of :: "store \<Rightarrow> string \<Rightarrow> string \<Rightarrow> metric_row list" where
  "samples_of db t c =
     map fst (filter (\<lambda>(m, b). b_test_name b = t \<and> b_commit_hash b = c) (joined db))"

text \<open>The numeric entries of a payload, and the sample rows written for them.\<close>

fun numeric_items :: "(string \<times> json) list \<Rightarrow> (string \<times> real) list" where
  "numeric_items [] = []"
| "numeric_items ((k, v) # rest) =
     (case number_value v of
        Some x \<Rightarrow> (k, x) # numeric_items rest
      | None \<Rightarrow> numeric_items rest)"

definition sample_rows :: "nat \<Rightarrow> (string \<times> json) list \<Rightarrow> metric_row list" where
  "sample_rows bid items =
     map (\<lambda>(k, x). \<lparr>m_benchmark_id = bid, m_metric_name = k, m_value = x, m_unit = None\<rparr>)
         (numeric_items items)"

text \<open>
  The items that \<^verbatim>\<open>add_measurement\<close> gets to iterate over, and the benchmark row it
  writes.
\<close>

fun payload_items :: "json \<Rightarrow> (string \<times> json) list" where
  "payload_items (JObj items) = items"
| "payload_items _ = []"

definition written_row :: "store \<Rightarrow> string \<Rightarrow> string \<Rightarrow> json \<Rightarrow> real \<Rightarrow> benchmark_row" where
  "written_row db t c metrics now =
     \<lparr>b_id = next_rowid (benchmarks_table db), b_test_name = t, b_commit_hash = c,
      b_timestamp = now, b_metrics_json = metrics\<rparr>"



text \<open>The number that a string of decimal digits denotes.\<close>

definition is_digit :: "char \<Rightarrow> bool" where
  "is_digit ch \<longleftrightarrow> ch \<in> set ''0123456789''"

definition digit_value :: "char \<Rightarrow> nat" where
  "digit_value ch = length (takeWhile (\<lambda>d. d \<noteq> ch) ''0123456789'')"

definition digits_value :: "string \<Rightarrow> nat" where
  "digits_value s = foldl (\<lambda>acc ch. 10 * acc + digit_value ch) 0 s"

text \<open>A payload with each boolean replaced by the integer it equals.\<close>

fun bool_as_int :: "json \<Rightarrow> json" where
  "bool_as_int (JBool b) = JInt (if b then 1 else 0)"
| "bool_as_int v = v"

definition bools_as_ints :: "(string \<times> json) list \<Rightarrow> (string \<times> json) list" where
  "bools_as_ints items = map (\<lambda>(k, v). (k, bool_as_int v)) items"

text \<open>Stores and worlds for the examples.\<close>

definition store_with :: "json \<Rightarrow> store" where
  "store_with v = snd (add_measurement empty_store ''t'' ''c0'' (JObj [(''m'', v)]) 0)"


definition empty_world :: world where
  "empty_world =
     \<lparr>w_store = empty_store, w_all_regressions = [], w_clock = 0,
      w_stdout = [], w_stderr = [], w_files = Map.empty\<rparr>"

definition default_args :: arguments where
  "default_args =
     \<lparr>a_new = ''bench/*.json'', a_threshold = 5 / 100, a_output = ''report.md'',
      a_commit = ''HEAD''\<rparr>"

text \<open>
  A run over two files: the first cannot be read, the second holds one entry of the
  Google Benchmark format, for a test with two earlier measurements of 100.
\<close>

definition tick :: "nat \<Rightarrow> real" where
  "tick k = 10 + real k"




definition sort_finding :: finding where
  "sort_finding =
     \<lparr>f_test = ''BM_Sort'', f_metric = ''real_time'', f_baseline = 100, f_new = 120,
      f_regression_pct = 20\<rparr>"

section \<open>The baseline is the median\<close>

lemma filter_length_sort:
  "length (filter P (sort xs)) = length (filter P (xs :: real list))"
proof -
  have "mset (filter P (sort xs)) = mset (filter P xs)"
    by simp
  then show ?thesis
    by (metis size_mset)
qed

lemma count_le_sorted:
  assumes "sorted (s :: real list)" and "k < length s" and "s ! k \<le> m"
  shows "k + 1 \<le> length (filter (\<lambda>x. x \<le> m) s)"
proof -
  have all: "\<forall>x \<in> set (take (k + 1) s). x \<le> m"
  proof
    fix x assume "x \<in> set (take (k + 1) s)"
    then obtain i where i: "i < k + 1" "i < length s" "x = s ! i"
      by (auto simp: in_set_conv_nth)
    then have "s ! i \<le> s ! k"
      using assms(1,2) by (intro sorted_nth_mono) auto
    with i assms(3) show "x \<le> m" by simp
  qed
  have "s = take (k + 1) s @ drop (k + 1) s" by simp
  then have "length (filter (\<lambda>x. x \<le> m) s) =
      length (filter (\<lambda>x. x \<le> m) (take (k + 1) s)) + length (filter (\<lambda>x. x \<le> m) (drop (k + 1) s))"
    by (metis filter_append length_append)
  moreover have "filter (\<lambda>x. x \<le> m) (take (k + 1) s) = take (k + 1) s"
    using all by (simp add: filter_id_conv)
  moreover have "length (take (k + 1) s) = k + 1"
    using assms(2) by simp
  ultimately show ?thesis by simp
qed

lemma count_ge_sorted:
  assumes "sorted (s :: real list)" and "k < length s" and "m \<le> s ! k"
  shows "length s - k \<le> length (filter (\<lambda>x. m \<le> x) s)"
proof -
  have all: "\<forall>x \<in> set (drop k s). m \<le> x"
  proof
    fix x assume "x \<in> set (drop k s)"
    then obtain i where i: "i < length s - k" "x = s ! (k + i)"
      by (auto simp: in_set_conv_nth)
    then have "s ! k \<le> s ! (k + i)"
      using assms(1,2) by (intro sorted_nth_mono) auto
    with i assms(3) show "m \<le> x" by simp
  qed
  have "s = take k s @ drop k s" by simp
  then have "length (filter (\<lambda>x. m \<le> x) s) =
      length (filter (\<lambda>x. m \<le> x) (take k s)) + length (filter (\<lambda>x. m \<le> x) (drop k s))"
    by (metis filter_append length_append)
  moreover have "filter (\<lambda>x. m \<le> x) (drop k s) = drop k s"
    using all by (simp add: filter_id_conv)
  ultimately show ?thesis by simp
qed

lemma sort_Nil_iff: "(sort (vs :: real list) = []) = (vs = [])"
  by (metis length_sort length_0_conv)

lemma median_eq:
  "vs \<noteq> [] \<Longrightarrow>
   median vs = Inr (if length vs mod 2 = 1 then sort vs ! (length vs div 2)
                    else (sort vs ! (length vs div 2 - 1) + sort vs ! (length vs div 2)) / 2)"
  by (simp add: median_def Let_def sort_Nil_iff)

lemma median_halves:
  assumes "vs \<noteq> []" and "median vs = Inr m"
  shows "length vs \<le> 2 * length (filter (\<lambda>x. x \<le> m) vs)"
    and "length vs \<le> 2 * length (filter (\<lambda>x. m \<le> x) vs)"
proof -
  define s where "s = sort vs"
  define n where "n = length vs"
  have srt: "sorted s" and len: "length s = n" and pos: "0 < n"
    using assms(1) by (simp_all add: s_def n_def)
  have below: "length (filter (\<lambda>x. x \<le> m) vs) = length (filter (\<lambda>x. x \<le> m) s)"
    and above: "length (filter (\<lambda>x. m \<le> x) vs) = length (filter (\<lambda>x. m \<le> x) s)"
    by (simp_all add: s_def filter_length_sort)
  have "n \<le> 2 * length (filter (\<lambda>x. x \<le> m) s) \<and> n \<le> 2 * length (filter (\<lambda>x. m \<le> x) s)"
  proof (cases "n mod 2 = 1")
    case True
    then have m: "m = s ! (n div 2)"
      using assms by (simp add: median_eq s_def n_def)
    have k: "n div 2 < length s" using len pos by simp
    have "n div 2 + 1 \<le> length (filter (\<lambda>x. x \<le> m) s)"
      using srt k m by (intro count_le_sorted) auto
    moreover have "length s - n div 2 \<le> length (filter (\<lambda>x. m \<le> x) s)"
      using srt k m by (intro count_ge_sorted) auto
    ultimately show ?thesis using True len by linarith
  next
    case False
    then have m: "m = (s ! (n div 2 - 1) + s ! (n div 2)) / 2"
      using assms by (simp add: median_eq s_def n_def)
    have two: "2 \<le> n" and ev: "n = 2 * (n div 2)" using False pos by presburger+
    have k: "n div 2 < length s" and k': "n div 2 - 1 < length s"
      using len pos by simp_all
    have "s ! (n div 2 - 1) \<le> s ! (n div 2)"
      using srt k by (intro sorted_nth_mono) auto
    then have lo: "s ! (n div 2 - 1) \<le> m" and hi: "m \<le> s ! (n div 2)"
      by (simp_all add: m)
    have "n div 2 - 1 + 1 \<le> length (filter (\<lambda>x. x \<le> m) s)"
      using srt k' lo by (intro count_le_sorted) auto
    moreover have "length s - n div 2 \<le> length (filter (\<lambda>x. m \<le> x) s)"
      using srt k hi by (intro count_ge_sorted) auto
    ultimately show ?thesis using ev two len by linarith
  qed
  then show "length vs \<le> 2 * length (filter (\<lambda>x. x \<le> m) vs)"
    and "length vs \<le> 2 * length (filter (\<lambda>x. m \<le> x) vs)"
    by (simp_all add: below above n_def)
qed

lemma median_defined: "vs \<noteq> [] \<Longrightarrow> \<exists>m. median vs = Inr m"
  by (simp add: median_eq)

lemma median_single: "median [x] = Inr x"
  by (simp add: median_def)

lemma baseline_of_eq:
  "vs \<noteq> [] \<Longrightarrow>
   baseline_of vs = Inr (Some (if length vs mod 2 = 1 then sort vs ! (length vs div 2)
                    else (sort vs ! (length vs div 2 - 1) + sort vs ! (length vs div 2)) / 2))"
  by (simp add: baseline_of_def median_eq)

text \<open>
  C2. The baseline of a non-empty sequence is its statistical median: the middle element of
  the sorted sequence, or the mean of the two middle elements for an even count, so that
  at least half of the values (counted with their duplicates) lie at or below it and at
  least half at or above it. The baseline of [10, 12, 11, 9, 13] is 11, of [5, 7] is 6,
  of a single element that element, of [1, 1, 2] it is 1 (the duplicate counts), and the
  empty sequence has no baseline.
\<close>

theorem baseline_is_median:
  "baseline_of [10, 12, 11, 9, 13] = Inr (Some 11)
   \<and> baseline_of [5, 7] = Inr (Some 6)
   \<and> baseline_of [x] = Inr (Some x)
   \<and> baseline_of [1, 1, 2] = Inr (Some 1)
   \<and> baseline_of [] = Inr None
   \<and> (vs \<noteq> [] \<longrightarrow>
        (\<exists>m. baseline_of vs = Inr (Some m)
           \<and> m = (if length vs mod 2 = 1 then sort vs ! (length vs div 2)
                  else (sort vs ! (length vs div 2 - 1) + sort vs ! (length vs div 2)) / 2)
           \<and> length vs \<le> 2 * length (filter (\<lambda>v. v \<le> m) vs)
           \<and> length vs \<le> 2 * length (filter (\<lambda>v. m \<le> v) vs)))"
proof -
  have general: "vs \<noteq> [] \<longrightarrow>
        (\<exists>m. baseline_of vs = Inr (Some m)
           \<and> m = (if length vs mod 2 = 1 then sort vs ! (length vs div 2)
                  else (sort vs ! (length vs div 2 - 1) + sort vs ! (length vs div 2)) / 2)
           \<and> length vs \<le> 2 * length (filter (\<lambda>v. v \<le> m) vs)
           \<and> length vs \<le> 2 * length (filter (\<lambda>v. m \<le> v) vs))"
  proof
    assume ne: "vs \<noteq> []"
    let ?m = "if length vs mod 2 = 1 then sort vs ! (length vs div 2)
              else (sort vs ! (length vs div 2 - 1) + sort vs ! (length vs div 2)) / 2"
    have med: "median vs = Inr ?m" using ne by (rule median_eq)
    have "baseline_of vs = Inr (Some ?m)" using ne by (rule baseline_of_eq)
    moreover have "length vs \<le> 2 * length (filter (\<lambda>v. v \<le> ?m) vs)"
      using ne med by (rule median_halves(1))
    moreover have "length vs \<le> 2 * length (filter (\<lambda>v. ?m \<le> v) vs)"
      using ne med by (rule median_halves(2))
    ultimately show "\<exists>m. baseline_of vs = Inr (Some m)
           \<and> m = ?m
           \<and> length vs \<le> 2 * length (filter (\<lambda>v. v \<le> m) vs)
           \<and> length vs \<le> 2 * length (filter (\<lambda>v. m \<le> v) vs)"
      by blast
  qed
  have "baseline_of [10, 12, 11, 9, 13] = Inr (Some 11)"
    by (simp add: baseline_of_def median_def)
  moreover have "baseline_of [5, 7] = Inr (Some 6)"
    by (simp add: baseline_of_def median_def)
  moreover have "baseline_of [x] = Inr (Some x)"
    by (simp add: baseline_of_def median_def)
  moreover have "baseline_of [1, 1, 2] = Inr (Some 1)"
    by (simp add: baseline_of_def median_def)
  moreover have "baseline_of [] = Inr None"
    by (simp add: baseline_of_def)
  ultimately show ?thesis using general by blast
qed

theorem baseline_is_median_witness:
  "[4, 8, 6, 8 :: real] \<noteq> []
   \<and> baseline_of [4, 8, 6, 8] = Inr (Some 7)
   \<and> length [4, 8, 6, 8 :: real] \<le> 2 * length (filter (\<lambda>v. v \<le> 7) [4, 8, 6, 8 :: real])
   \<and> length [4, 8, 6, 8 :: real] \<le> 2 * length (filter (\<lambda>v. 7 \<le> v) [4, 8, 6, 8 :: real])"
  using baseline_is_median [of 0 "[4, 8, 6, 8]"] by simp

section \<open>The threshold comparison\<close>

lemma store_with_eq:
  "number_value v = Some x \<Longrightarrow>
   store_with v =
     \<lparr>benchmarks_table = [\<lparr>b_id = 1, b_test_name = ''t'', b_commit_hash = ''c0'',
                            b_timestamp = 0, b_metrics_json = JObj [(''m'', v)]\<rparr>],
      metrics_table = [\<lparr>m_benchmark_id = 1, m_metric_name = ''m'', m_value = x, m_unit = None\<rparr>]\<rparr>"
  by (simp add: store_with_def add_measurement_def insert_or_replace_def next_rowid_def
      empty_store_def)

lemma history_limit:
  "history db t metric_name window =
     limit window (map (\<lambda>(m, b). m_value m) (by_timestamp_desc (matching db t metric_name)))"
  by (simp add: history_def limit_def take_map)

lemma limit_five: "limit 5 rows = Inr (take 5 rows)"
  by (simp add: limit_def fits_int64_def)

lemma history_store_with:
  "number_value v = Some x \<Longrightarrow> history (store_with v) ''t'' ''m'' 5 = Inr [x]"
  by (simp add: store_with_eq history_limit limit_five by_timestamp_desc_def matching_def
      joined_def)

lemma get_baseline_store_with:
  "number_value v = Some x \<Longrightarrow> get_baseline (store_with v) ''t'' ''m'' 5 = Inr (Some x)"
  by (simp add: get_baseline_def history_store_with baseline_of_def median_def)

lemma check_regression_single:
  assumes "get_baseline db t metric_name 5 = Inr (Some baseline)"
    and "number_value v = Some new_value"
  shows "check_regression db t (JObj [(metric_name, v)]) threshold =
     (case classify t metric_name baseline new_value threshold of
        Inl e \<Rightarrow> Inl e
      | Inr None \<Rightarrow> Inr []
      | Inr (Some reg) \<Rightarrow> Inr [reg])"
  using assms by (simp add: check_regression_def split: sum.splits option.splits)

text \<open>
  C4. Failing input: a store whose only sample of metric m of test t is 0, and a new
  value of 1. The baseline is 0, the comparison 1 > 0 * (1 + 0.05) holds, and the quotient
  by the baseline raises ZeroDivisionError.
\<close>

theorem zero_baseline_raises:
  "get_baseline (store_with (JInt 0)) ''t'' ''m'' 5 = Inr (Some 0)
   \<and> check_regression (store_with (JInt 0)) ''t'' (JObj [(''m'', JInt 1)]) (5 / 100)
       = Inl ZeroDivisionError"
proof -
  have b: "get_baseline (store_with (JInt 0)) ''t'' ''m'' 5 = Inr (Some 0)"
    using get_baseline_store_with [of "JInt 0" 0] by simp
  have "check_regression (store_with (JInt 0)) ''t'' (JObj [(''m'', JInt 1)]) (5 / 100)
       = Inl ZeroDivisionError"
    using check_regression_single [OF b, of "JInt 1" 1 "5 / 100"]
    by (simp add: classify_def)
  with b show ?thesis by simp
qed




section \<open>The store keeps one record per test and commit\<close>

lemma next_rowid_gt: "r \<in> set rows \<Longrightarrow> b_id r < next_rowid rows"
  unfolding next_rowid_def by (induction rows) auto

lemma store_metrics_tables:
  "benchmarks_table (store_metrics db bid items) = benchmarks_table db
   \<and> metrics_table (store_metrics db bid items) = metrics_table db @ sample_rows bid items"
  by (induction items arbitrary: db) (auto simp: sample_rows_def split: option.splits)

lemma add_measurement_benchmarks:
  "benchmarks_table (snd (add_measurement db t c metrics now)) =
     filter (\<lambda>r. \<not> (b_test_name r = t \<and> b_commit_hash r = c)) (benchmarks_table db)
     @ [written_row db t c metrics now]"
  by (cases metrics)
     (simp_all add: add_measurement_def insert_or_replace_def written_row_def Let_def
        store_metrics_tables)

lemma add_measurement_metrics:
  "metrics_table (snd (add_measurement db t c metrics now)) =
     metrics_table db @ sample_rows (next_rowid (benchmarks_table db)) (payload_items metrics)"
  by (cases metrics)
     (simp_all add: add_measurement_def insert_or_replace_def Let_def store_metrics_tables
        sample_rows_def)

lemma sample_rows_id: "m \<in> set (sample_rows bid items) \<Longrightarrow> m_benchmark_id m = bid"
  by (auto simp: sample_rows_def)

lemma store_inv_empty: "store_inv empty_store"
  by (simp add: store_inv_def empty_store_def)

lemma store_inv_add_measurement:
  assumes "store_inv db"
  shows "store_inv (snd (add_measurement db t c metrics now))"
proof -
  let ?B = "benchmarks_table db"
  let ?K = "filter (\<lambda>r. \<not> (b_test_name r = t \<and> b_commit_hash r = c)) ?B"
  let ?n = "written_row db t c metrics now"
  let ?db' = "snd (add_measurement db t c metrics now)"
  have B': "benchmarks_table ?db' = ?K @ [?n]" by (rule add_measurement_benchmarks)
  have M': "metrics_table ?db' =
      metrics_table db @ sample_rows (next_rowid ?B) (payload_items metrics)"
    by (rule add_measurement_metrics)
  have idn: "b_id ?n = next_rowid ?B" by (simp add: written_row_def)
  have keyn: "b_test_name ?n = t" "b_commit_hash ?n = c" by (simp_all add: written_row_def)
  have "distinct (map b_id ?B)" using assms by (simp add: store_inv_def)
  then have dK: "distinct (map b_id ?K)" by (rule distinct_map_filter)
  have "b_id ?n \<notin> set (map b_id ?K)"
  proof
    assume "b_id ?n \<in> set (map b_id ?K)"
    then obtain r where "r \<in> set ?B" "b_id r = b_id ?n" by auto
    then show False using next_rowid_gt [of r ?B] idn by simp
  qed
  with dK have ids: "distinct (map b_id (?K @ [?n]))" by simp
  have "distinct (map (\<lambda>r. (b_test_name r, b_commit_hash r)) ?B)"
    using assms by (simp add: store_inv_def)
  then have "distinct (map (\<lambda>r. (b_test_name r, b_commit_hash r)) ?K)"
    by (rule distinct_map_filter)
  moreover have "(b_test_name ?n, b_commit_hash ?n)
      \<notin> set (map (\<lambda>r. (b_test_name r, b_commit_hash r)) ?K)"
    using keyn by auto
  ultimately have keys: "distinct (map (\<lambda>r. (b_test_name r, b_commit_hash r)) (?K @ [?n]))"
    by simp
  have next': "next_rowid ?B < next_rowid (?K @ [?n])"
    using next_rowid_gt [of ?n "?K @ [?n]"] idn by simp
  have "\<forall>m \<in> set (metrics_table db). m_benchmark_id m < next_rowid ?B"
    using assms by (simp add: store_inv_def list_all_iff)
  then have old: "\<forall>m \<in> set (metrics_table db). m_benchmark_id m < next_rowid (?K @ [?n])"
    using next' by fastforce
  have new: "\<forall>m \<in> set (sample_rows (next_rowid ?B) (payload_items metrics)).
      m_benchmark_id m < next_rowid (?K @ [?n])"
    using next' by (auto dest: sample_rows_id)
  have "list_all (\<lambda>m. m_benchmark_id m < next_rowid (?K @ [?n]))
      (metrics_table db @ sample_rows (next_rowid ?B) (payload_items metrics))"
    using old new by (auto simp: list_all_iff)
  with ids keys show ?thesis
    unfolding store_inv_def B' M' by blast
qed

lemma store_inv_record_all: "store_inv db \<Longrightarrow> store_inv (record_all db ops)"
  by (induction db ops rule: record_all.induct) (auto simp: store_inv_add_measurement)

lemma records_of_add_measurement:
  "records_of (snd (add_measurement db t c metrics now)) t c = [written_row db t c metrics now]"
  by (simp add: records_of_def add_measurement_benchmarks written_row_def)

lemma joined_add_measurement:
  assumes "store_inv db"
  shows "joined (snd (add_measurement db t c metrics now)) =
     concat (map (\<lambda>m. map (Pair m)
                (filter (\<lambda>b. b_id b = m_benchmark_id m)
                   (filter (\<lambda>r. \<not> (b_test_name r = t \<and> b_commit_hash r = c)) (benchmarks_table db))))
             (metrics_table db))
     @ map (\<lambda>m. (m, written_row db t c metrics now))
         (sample_rows (next_rowid (benchmarks_table db)) (payload_items metrics))"
proof -
  let ?B = "benchmarks_table db"
  let ?K = "filter (\<lambda>r. \<not> (b_test_name r = t \<and> b_commit_hash r = c)) ?B"
  let ?n = "written_row db t c metrics now"
  let ?S = "sample_rows (next_rowid ?B) (payload_items metrics)"
  let ?g = "\<lambda>m. map (Pair m) (filter (\<lambda>b. b_id b = m_benchmark_id m) (?K @ [?n]))"
  have idn: "b_id ?n = next_rowid ?B" by (simp add: written_row_def)
  have old: "\<And>m. m \<in> set (metrics_table db) \<Longrightarrow>
      ?g m = map (Pair m) (filter (\<lambda>b. b_id b = m_benchmark_id m) ?K)"
  proof -
    fix m assume "m \<in> set (metrics_table db)"
    then have "m_benchmark_id m < next_rowid ?B"
      using assms by (simp add: store_inv_def list_all_iff)
    then show "?g m = map (Pair m) (filter (\<lambda>b. b_id b = m_benchmark_id m) ?K)"
      using idn by simp
  qed
  have new: "\<And>m. m \<in> set ?S \<Longrightarrow> ?g m = [(m, ?n)]"
  proof -
    fix m assume "m \<in> set ?S"
    then have bid: "m_benchmark_id m = next_rowid ?B" by (rule sample_rows_id)
    have "\<And>r. r \<in> set ?B \<Longrightarrow> b_id r \<noteq> m_benchmark_id m"
      using next_rowid_gt [of _ ?B] bid by fastforce
    then have "filter (\<lambda>b. b_id b = m_benchmark_id m) ?K = []"
      by (auto simp: filter_empty_conv)
    then show "?g m = [(m, ?n)]" using bid idn by simp
  qed
  have "joined (snd (add_measurement db t c metrics now)) =
      concat (map ?g (metrics_table db)) @ concat (map ?g ?S)"
    by (simp add: joined_def add_measurement_benchmarks add_measurement_metrics)
  also have "map ?g (metrics_table db) =
      map (\<lambda>m. map (Pair m) (filter (\<lambda>b. b_id b = m_benchmark_id m) ?K)) (metrics_table db)"
    using old by (intro map_cong) auto
  also have "map ?g ?S = map (\<lambda>m. [(m, ?n)]) ?S"
    using new by (intro map_cong) auto
  also have "concat (map (\<lambda>m. [(m, ?n)]) ?S) = map (\<lambda>m. (m, ?n)) ?S"
    by (induction ?S) auto
  finally show ?thesis .
qed

lemma samples_of_add_measurement:
  assumes "store_inv db"
  shows "samples_of (snd (add_measurement db t c metrics now)) t c =
     sample_rows (next_rowid (benchmarks_table db)) (payload_items metrics)"
proof -
  let ?P = "\<lambda>(m, b). b_test_name b = t \<and> b_commit_hash b = c"
  have "filter ?P (concat (map (\<lambda>m. map (Pair m)
                (filter (\<lambda>b. b_id b = m_benchmark_id m)
                   (filter (\<lambda>r. \<not> (b_test_name r = t \<and> b_commit_hash r = c)) (benchmarks_table db))))
             (metrics_table db))) = []"
    by (auto simp: filter_empty_conv)
  moreover have "filter ?P (map (\<lambda>m. (m, written_row db t c metrics now))
         (sample_rows (next_rowid (benchmarks_table db)) (payload_items metrics)))
       = map (\<lambda>m. (m, written_row db t c metrics now))
         (sample_rows (next_rowid (benchmarks_table db)) (payload_items metrics))"
    by (auto simp: filter_id_conv written_row_def)
  ultimately show ?thesis
    by (simp add: samples_of_def joined_add_measurement [OF assms] comp_def)
qed

lemma sample_rows_entries:
  "map (\<lambda>m. (m_metric_name m, m_value m)) (sample_rows bid items) = numeric_items items"
  by (simp add: sample_rows_def comp_def case_prod_beta)

lemma sort_key_constant:
  assumes "\<forall>x \<in> set xs. f x = k"
  shows "sort_key f xs = xs"
proof -
  have "filter (\<lambda>y. f y = k) (sort_key f xs) = filter (\<lambda>y. f y = k) xs"
    by (rule sort_key_stable)
  moreover have "filter (\<lambda>y. f y = k) (sort_key f xs) = sort_key f xs"
    using assms by (simp add: filter_id_conv)
  moreover have "filter (\<lambda>y. f y = k) xs = xs"
    using assms by (simp add: filter_id_conv)
  ultimately show ?thesis by simp
qed

lemma at_most_one_record:
  assumes "distinct (map (\<lambda>r. (b_test_name r, b_commit_hash r)) rows)"
  shows "length (filter (\<lambda>r. b_test_name r = t \<and> b_commit_hash r = c) rows) \<le> 1"
  using assms
proof (induction rows)
  case Nil
  then show ?case by simp
next
  case (Cons r rows)
  show ?case
  proof (cases "b_test_name r = t \<and> b_commit_hash r = c")
    case True
    then have "(t, c) \<notin> set (map (\<lambda>r. (b_test_name r, b_commit_hash r)) rows)"
      using Cons.prems by auto
    then have "filter (\<lambda>r. b_test_name r = t \<and> b_commit_hash r = c) rows = []"
      by (auto simp: filter_empty_conv)
    with True show ?thesis by simp
  next
    case False
    with Cons show ?thesis by auto
  qed
qed

lemma matching_add_measurement:
  assumes "store_inv db"
  shows "matching (snd (add_measurement db t c metrics now)) t metric_name =
     filter (\<lambda>(m, b). b_test_name b = t \<and> m_metric_name m = metric_name)
       (concat (map (\<lambda>m. map (Pair m)
                (filter (\<lambda>b. b_id b = m_benchmark_id m)
                   (filter (\<lambda>r. \<not> (b_test_name r = t \<and> b_commit_hash r = c)) (benchmarks_table db))))
             (metrics_table db)))
     @ map (\<lambda>m. (m, written_row db t c metrics now))
         (filter (\<lambda>m. m_metric_name m = metric_name)
            (sample_rows (next_rowid (benchmarks_table db)) (payload_items metrics)))"
  by (simp add: matching_def joined_add_measurement [OF assms] filter_map comp_def
      written_row_def)

lemma old_rows_subset:
  "set (concat (map (\<lambda>m. map (Pair m)
                (filter (\<lambda>b. b_id b = m_benchmark_id m) (filter Q (benchmarks_table db))))
             (metrics_table db))) \<subseteq> set (joined db)"
  by (auto simp: joined_def)

lemma history_only_new:
  assumes inv: "store_inv db"
    and old: "\<forall>(m, b) \<in> set (joined db).
        b_test_name b = t \<and> m_metric_name m = metric_name \<longrightarrow> b_commit_hash b = c"
  shows "history (snd (add_measurement db t c metrics now)) t metric_name window =
     limit window (map snd (filter (\<lambda>(k, x). k = metric_name) (numeric_items (payload_items metrics))))"
proof -
  let ?S = "sample_rows (next_rowid (benchmarks_table db)) (payload_items metrics)"
  let ?n = "written_row db t c metrics now"
  let ?new = "map (\<lambda>m. (m, ?n)) (filter (\<lambda>m. m_metric_name m = metric_name) ?S)"
  have "filter (\<lambda>(m, b). b_test_name b = t \<and> m_metric_name m = metric_name)
       (concat (map (\<lambda>m. map (Pair m)
                (filter (\<lambda>b. b_id b = m_benchmark_id m)
                   (filter (\<lambda>r. \<not> (b_test_name r = t \<and> b_commit_hash r = c)) (benchmarks_table db))))
             (metrics_table db))) = []"
    unfolding filter_empty_conv
  proof
    fix p
    assume p: "p \<in> set (concat (map (\<lambda>m. map (Pair m)
                (filter (\<lambda>b. b_id b = m_benchmark_id m)
                   (filter (\<lambda>r. \<not> (b_test_name r = t \<and> b_commit_hash r = c)) (benchmarks_table db))))
             (metrics_table db)))"
    then have "p \<in> set (joined db)" using old_rows_subset by blast
    moreover have "\<not> (b_test_name (snd p) = t \<and> b_commit_hash (snd p) = c)"
      using p by auto
    ultimately show "\<not> (case p of (m, b) \<Rightarrow> b_test_name b = t \<and> m_metric_name m = metric_name)"
      using old by (cases p) auto
  qed
  then have m: "matching (snd (add_measurement db t c metrics now)) t metric_name = ?new"
    by (simp add: matching_add_measurement [OF inv])
  have "by_timestamp_desc ?new = ?new"
    unfolding by_timestamp_desc_def
    by (rule sort_key_constant [where k = "- b_timestamp ?n"]) auto
  then have "history (snd (add_measurement db t c metrics now)) t metric_name window =
      limit window (map (\<lambda>(m, b). m_value m) ?new)"
    by (simp add: history_limit m)
  also have "map (\<lambda>(m, b). m_value m) ?new
      = map snd (filter (\<lambda>(k, x). k = metric_name) (numeric_items (payload_items metrics)))"
    by (simp add: sample_rows_def filter_map comp_def case_prod_unfold)
  finally show ?thesis .
qed

lemma joined_add_measurement_cases:
  assumes "store_inv db" and "(m, b) \<in> set (joined (snd (add_measurement db t c metrics now)))"
  shows "(m, b) \<in> set (joined db) \<or> b = written_row db t c metrics now"
proof -
  have "(m, b) \<in> set (concat (map (\<lambda>m. map (Pair m)
                (filter (\<lambda>b. b_id b = m_benchmark_id m)
                   (filter (\<lambda>r. \<not> (b_test_name r = t \<and> b_commit_hash r = c)) (benchmarks_table db))))
             (metrics_table db)))
      \<or> (m, b) \<in> set (map (\<lambda>m. (m, written_row db t c metrics now))
         (sample_rows (next_rowid (benchmarks_table db)) (payload_items metrics)))"
    using assms(2) unfolding joined_add_measurement [OF assms(1)] by simp
  then show ?thesis
    using old_rows_subset by fastforce
qed

text \<open>
  C3. On a store that satisfies the invariant of the schema, recording a pair of test and
  commit twice leaves exactly one benchmark record for the pair, with the timestamp and
  the payload of the second write; the samples joined to that record are the numeric
  entries of the second payload, and where no other commit has a sample of the metric the
  history is made of the second write's values alone. The invariant holds in the empty
  store and after every sequence of record operations, so the store never holds more than
  one record per test and commit.
\<close>

theorem upsert_keeps_one_record:
  assumes "store_inv db"
  shows "(let db1 = snd (add_measurement db t c m1 ts1);
              db2 = snd (add_measurement db1 t c m2 ts2)
          in records_of db2 t c =
               [\<lparr>b_id = next_rowid (benchmarks_table db1), b_test_name = t, b_commit_hash = c,
                 b_timestamp = ts2, b_metrics_json = m2\<rparr>]
             \<and> map (\<lambda>m. (m_metric_name m, m_value m)) (samples_of db2 t c)
                 = numeric_items (payload_items m2)
             \<and> ((\<forall>(m, b) \<in> set (joined db).
                    b_test_name b = t \<and> m_metric_name m = metric_name \<longrightarrow> b_commit_hash b = c)
                 \<longrightarrow> history db2 t metric_name window =
                       limit window (map snd (filter (\<lambda>(k, x). k = metric_name)
                                                (numeric_items (payload_items m2)))))
             \<and> store_inv db2)
       \<and> store_inv (record_all db ops)
       \<and> length (records_of (record_all db ops) t' c') \<le> 1
       \<and> store_inv empty_store"
proof -
  define db1 where "db1 = snd (add_measurement db t c m1 ts1)"
  define db2 where "db2 = snd (add_measurement db1 t c m2 ts2)"
  have inv1: "store_inv db1"
    unfolding db1_def using assms by (rule store_inv_add_measurement)
  have inv2: "store_inv db2"
    unfolding db2_def using inv1 by (rule store_inv_add_measurement)
  have one: "records_of db2 t c =
               [\<lparr>b_id = next_rowid (benchmarks_table db1), b_test_name = t, b_commit_hash = c,
                 b_timestamp = ts2, b_metrics_json = m2\<rparr>]"
    unfolding db2_def by (simp add: records_of_add_measurement written_row_def)
  have samples: "map (\<lambda>m. (m_metric_name m, m_value m)) (samples_of db2 t c)
                 = numeric_items (payload_items m2)"
    unfolding db2_def
    by (simp only: samples_of_add_measurement [OF inv1] sample_rows_entries)
  have hist: "(\<forall>(m, b) \<in> set (joined db).
                    b_test_name b = t \<and> m_metric_name m = metric_name \<longrightarrow> b_commit_hash b = c)
                 \<longrightarrow> history db2 t metric_name window =
                       limit window (map snd (filter (\<lambda>(k, x). k = metric_name)
                                                (numeric_items (payload_items m2))))"
  proof
    assume old: "\<forall>(m, b) \<in> set (joined db).
        b_test_name b = t \<and> m_metric_name m = metric_name \<longrightarrow> b_commit_hash b = c"
    have "\<And>m b. (m, b) \<in> set (joined db1) \<Longrightarrow> b_test_name b = t
        \<Longrightarrow> m_metric_name m = metric_name \<Longrightarrow> b_commit_hash b = c"
    proof -
      fix m b
      assume mb: "(m, b) \<in> set (joined db1)"
        and tb: "b_test_name b = t" and nm: "m_metric_name m = metric_name"
      have "(m, b) \<in> set (joined db) \<or> b = written_row db t c m1 ts1"
        using joined_add_measurement_cases [OF assms] mb unfolding db1_def by blast
      then show "b_commit_hash b = c"
      proof
        assume "(m, b) \<in> set (joined db)"
        then show ?thesis using old tb nm by blast
      next
        assume "b = written_row db t c m1 ts1"
        then have "b_commit_hash b = b_commit_hash (written_row db t c m1 ts1)" by simp
        then show ?thesis by (simp add: written_row_def)
      qed
    qed
    then have "\<forall>(m, b) \<in> set (joined db1).
        b_test_name b = t \<and> m_metric_name m = metric_name \<longrightarrow> b_commit_hash b = c"
      by blast
    then show "history db2 t metric_name window =
                       limit window (map snd (filter (\<lambda>(k, x). k = metric_name)
                                                (numeric_items (payload_items m2))))"
      unfolding db2_def using inv1 by (intro history_only_new) auto
  qed
  have seq: "store_inv (record_all db ops)"
    using assms by (rule store_inv_record_all)
  then have "distinct (map (\<lambda>r. (b_test_name r, b_commit_hash r))
      (benchmarks_table (record_all db ops)))"
    by (simp add: store_inv_def)
  then have most: "length (records_of (record_all db ops) t' c') \<le> 1"
    unfolding records_of_def by (rule at_most_one_record)
  from one samples hist inv2 seq most store_inv_empty show ?thesis
    unfolding db1_def [symmetric] db2_def [symmetric] Let_def
    by (simp only: db1_def [symmetric] db2_def [symmetric] simp_thms)
qed

theorem upsert_keeps_one_record_witness:
  "store_inv empty_store
   \<and> joined empty_store = []
   \<and> records_of
        (snd (add_measurement
               (snd (add_measurement empty_store ''t'' ''c'' (JObj [(''m'', JInt 1)]) 10))
               ''t'' ''c'' (JObj [(''m'', JInt 2), (''note'', JStr ''x'')]) 20)) ''t'' ''c''
       = [\<lparr>b_id = 2, b_test_name = ''t'', b_commit_hash = ''c'', b_timestamp = 20,
            b_metrics_json = JObj [(''m'', JInt 2), (''note'', JStr ''x'')]\<rparr>]
   \<and> history
        (snd (add_measurement
               (snd (add_measurement empty_store ''t'' ''c'' (JObj [(''m'', JInt 1)]) 10))
               ''t'' ''c'' (JObj [(''m'', JInt 2), (''note'', JStr ''x'')]) 20)) ''t'' ''m'' 5
       = Inr [2]"
proof -
  have inv: "store_inv empty_store"
    by (simp add: store_inv_def empty_store_def)
  have old: "\<forall>(m, b) \<in> set (joined empty_store).
         b_test_name b = ''t'' \<and> m_metric_name m = ''m'' \<longrightarrow> b_commit_hash b = ''c''"
    by (simp add: joined_def empty_store_def)
  have rid: "next_rowid (benchmarks_table
      (snd (add_measurement empty_store ''t'' ''c'' (JObj [(''m'', JInt 1)]) 10))) = 2"
    by (simp add: add_measurement_def insert_or_replace_def next_rowid_def empty_store_def)
  have none: "joined empty_store = []"
    by (simp add: joined_def empty_store_def)
  show ?thesis
    using upsert_keeps_one_record [OF inv, of "''t''" "''c''" "JObj [(''m'', JInt 1)]" 10
        "JObj [(''m'', JInt 2), (''note'', JStr ''x'')]" 20 "''m''" 5 "[]" "''t''" "''c''"]
      inv old rid none
    by (simp add: Let_def limit_five)
qed

section \<open>The history window\<close>













section \<open>A metric without history\<close>

lemma numeric_items_keys: "(k, x) \<in> set (numeric_items items) \<Longrightarrow> k \<in> fst ` set items"
  by (induction items rule: numeric_items.induct) (auto split: option.splits)

lemma numeric_items_lookup:
  assumes "distinct (map fst items)" and "(metric_name, v) \<in> set items"
    and "number_value v = Some x"
  shows "filter (\<lambda>(k, y). k = metric_name) (numeric_items items) = [(metric_name, x)]"
  using assms
proof (induction items rule: numeric_items.induct)
  case 1
  then show ?case by simp
next
  case (2 k u rest)
  show ?case
  proof (cases "k = metric_name")
    case True
    then have "u = v" using 2(3,4) by (auto simp: rev_image_eqI)
    moreover have "filter (\<lambda>(k, y). k = metric_name) (numeric_items rest) = []"
      using 2(3) True numeric_items_keys [of _ _ rest] by (auto simp: filter_empty_conv)
    ultimately show ?thesis using True 2(5) by simp
  next
    case False
    then have "(metric_name, v) \<in> set rest" using 2(4) by auto
    then have "filter (\<lambda>(k, y). k = metric_name) (numeric_items rest) = [(metric_name, x)]"
      using 2 by (cases "number_value u") auto
    then show ?thesis using False by (simp split: option.splits)
  qed
qed

lemma history_first_sample:
  assumes "store_inv db" and "matching db t metric_name = []"
    and "distinct (map fst items)" and "(metric_name, v) \<in> set items"
    and "number_value v = Some x"
  shows "history (snd (add_measurement db t c (JObj items) now)) t metric_name 5 = Inr [x]"
proof -
  have "\<forall>(m, b) \<in> set (joined db).
      b_test_name b = t \<and> m_metric_name m = metric_name \<longrightarrow> b_commit_hash b = c"
    using assms(2) by (auto simp: matching_def filter_empty_conv)
  then have "history (snd (add_measurement db t c (JObj items) now)) t metric_name 5 =
      limit 5 (map snd (filter (\<lambda>(k, x). k = metric_name)
                          (numeric_items (payload_items (JObj items)))))"
    using assms(1) by (intro history_only_new) auto
  then show ?thesis
    using numeric_items_lookup [OF assms(3,4,5)] by (simp add: limit_five)
qed

lemma check_items_origin:
  "check_items db t th items regs = Inr out \<Longrightarrow>
   \<exists>new. out = regs @ new \<and>
     (\<forall>f \<in> set new. \<exists>v nv b. (f_metric f, v) \<in> set items \<and> number_value v = Some nv
        \<and> get_baseline db t (f_metric f) 5 = Inr (Some b) \<and> nv > b * (1 + th))"
proof (induction items arbitrary: regs)
  case Nil
  then show ?case by simp
next
  case (Cons item rest)
  obtain k v where item: "item = (k, v)" by (cases item)
  show ?case
  proof (cases "number_value v")
    case None
    then have "check_items db t th rest regs = Inr out" using Cons.prems item by simp
    from Cons.IH [OF this] show ?thesis by (auto simp: item) blast
  next
    case (Some nv)
    show ?thesis
    proof (cases "get_baseline db t k 5")
      case (Inl e)
      then show ?thesis using Cons.prems item Some by simp
    next
      case (Inr ob)
      show ?thesis
      proof (cases ob)
        case None
        then have "check_items db t th rest regs = Inr out"
          using Cons.prems item Some Inr by simp
        from Cons.IH [OF this] show ?thesis by (auto simp: item) blast
      next
        case (Some b)
        note b = Some
        show ?thesis
        proof (cases "nv > b * (1 + th)")
          case False
          then have "check_items db t th rest regs = Inr out"
            using Cons.prems item \<open>number_value v = Some nv\<close> Inr b
            by (simp add: classify_def)
          from Cons.IH [OF this] show ?thesis by (auto simp: item) blast
        next
          case True
          show ?thesis
          proof (cases "b = 0")
            case True
            then show ?thesis
              using Cons.prems item \<open>number_value v = Some nv\<close> Inr b \<open>nv > b * (1 + th)\<close>
              by (simp add: classify_def)
          next
            case False
            define reg where "reg = \<lparr>f_test = t, f_metric = k, f_baseline = b, f_new = nv,
                f_regression_pct = (nv - b) / b * 100\<rparr>"
            have "check_items db t th rest (regs @ [reg]) = Inr out"
              using Cons.prems item \<open>number_value v = Some nv\<close> Inr b True False
              by (simp add: classify_def reg_def)
            from Cons.IH [OF this] obtain new where new: "out = (regs @ [reg]) @ new"
              "\<forall>f \<in> set new. \<exists>v nv b. (f_metric f, v) \<in> set rest \<and> number_value v = Some nv
                 \<and> get_baseline db t (f_metric f) 5 = Inr (Some b) \<and> nv > b * (1 + th)"
              by blast
            have "f_metric reg = k" by (simp add: reg_def)
            then have "\<exists>v nv b. (f_metric reg, v) \<in> set (item # rest) \<and> number_value v = Some nv
                 \<and> get_baseline db t (f_metric reg) 5 = Inr (Some b) \<and> nv > b * (1 + th)"
              using item \<open>number_value v = Some nv\<close> Inr b True by auto
            moreover have "\<forall>f \<in> set new. \<exists>v nv b. (f_metric f, v) \<in> set (item # rest)
                 \<and> number_value v = Some nv
                 \<and> get_baseline db t (f_metric f) 5 = Inr (Some b) \<and> nv > b * (1 + th)"
              using new(2) by fastforce
            ultimately have "\<forall>f \<in> set (reg # new). \<exists>v nv b. (f_metric f, v) \<in> set (item # rest)
                 \<and> number_value v = Some nv
                 \<and> get_baseline db t (f_metric f) 5 = Inr (Some b) \<and> nv > b * (1 + th)"
              by simp
            moreover have "out = regs @ (reg # new)" using new(1) by simp
            ultimately show ?thesis by blast
          qed
        qed
      qed
    qed
  qed
qed

lemma add_measurement_object:
  "fst (add_measurement db t c (JObj items) now) = None"
  by (simp add: add_measurement_def split: prod.splits)

lemma ingest_object:
  "ingest clock a w (JStr t) (JObj items) =
     (let db = snd (add_measurement (w_store w) t (a_commit a) (JObj items) (clock (w_clock w)))
      in case check_items db t (a_threshold a) items [] of
           Inl e \<Rightarrow> (Some e, w\<lparr>w_clock := w_clock w + 1, w_store := db\<rparr>)
         | Inr regressions \<Rightarrow>
             (None, w\<lparr>w_clock := w_clock w + 1, w_store := db,
                      w_all_regressions := w_all_regressions w @ regressions\<rparr>))"
proof -
  obtain e db where ad:
    "add_measurement (w_store w) t (a_commit a) (JObj items) (clock (w_clock w)) = (e, db)"
    by (cases "add_measurement (w_store w) t (a_commit a) (JObj items) (clock (w_clock w))")
  then have "e = None"
    using add_measurement_object [of "w_store w" t "a_commit a" items "clock (w_clock w)"]
    by simp
  then show ?thesis
    using ad by (simp add: ingest_def check_regression_def Let_def split: sum.splits)
qed

text \<open>
  C6, as stated, fails: the flow writes the sample before it asks for the baseline, so a
  metric without prior history is compared with itself, and a negative value exceeds
  itself times 1.05. On the empty store the value -1 yields a finding.
\<close>

theorem negative_value_flagged:
  "matching (w_store empty_world) ''t'' ''m'' = []
   \<and> fst (ingest (\<lambda>k. 0) default_args empty_world (JStr ''t'') (JObj [(''m'', JInt (- 1))])) = None
   \<and> w_all_regressions
        (snd (ingest (\<lambda>k. 0) default_args empty_world (JStr ''t'') (JObj [(''m'', JInt (- 1))])))
       = [\<lparr>f_test = ''t'', f_metric = ''m'', f_baseline = - 1, f_new = - 1,
            f_regression_pct = 0\<rparr>]"
proof -
  have db: "snd (add_measurement empty_store ''t'' ''HEAD'' (JObj [(''m'', JInt (- 1))]) 0) =
     \<lparr>benchmarks_table = [\<lparr>b_id = 1, b_test_name = ''t'', b_commit_hash = ''HEAD'',
                            b_timestamp = 0, b_metrics_json = JObj [(''m'', JInt (- 1))]\<rparr>],
      metrics_table = [\<lparr>m_benchmark_id = 1, m_metric_name = ''m'', m_value = - 1, m_unit = None\<rparr>]\<rparr>"
    by (simp add: add_measurement_def insert_or_replace_def next_rowid_def empty_store_def)
  have b: "get_baseline
      (snd (add_measurement empty_store ''t'' ''HEAD'' (JObj [(''m'', JInt (- 1))]) 0))
      ''t'' ''m'' 5 = Inr (Some (- 1))"
    by (simp add: db get_baseline_def history_limit limit_five by_timestamp_desc_def matching_def
        joined_def baseline_of_def median_def)
  have none: "matching (w_store empty_world) ''t'' ''m'' = []"
    by (simp add: empty_world_def empty_store_def matching_def joined_def)
  show ?thesis
    using b none
    by (simp add: ingest_object empty_world_def default_args_def classify_def Let_def)
qed

text \<open>
  C6, amended. For a metric with no prior history in the store, the flow of ingesting and
  then classifying takes the sample just written as the baseline, so the baseline is the
  new value itself; it produces no finding for that metric whenever the new value and the
  threshold are not of opposite sign, in particular for every value that is not negative
  under a threshold that is not negative.
\<close>

theorem no_history_flow:
  assumes "store_inv (w_store w)" and "matching (w_store w) t metric_name = []"
    and "distinct (map fst items)" and "(metric_name, v) \<in> set items"
    and "number_value v = Some x"
  shows "get_baseline
           (snd (add_measurement (w_store w) t (a_commit a) (JObj items) (clock (w_clock w))))
           t metric_name 5 = Inr (Some x)
       \<and> (0 \<le> x * a_threshold a \<longrightarrow>
            (\<exists>regs. w_all_regressions (snd (ingest clock a w (JStr t) (JObj items)))
                      = w_all_regressions w @ regs
                    \<and> (\<forall>f \<in> set regs. f_metric f \<noteq> metric_name)))"
proof -
  define db where
    "db = snd (add_measurement (w_store w) t (a_commit a) (JObj items) (clock (w_clock w)))"
  have "history db t metric_name 5 = Inr [x]"
    unfolding db_def using assms by (rule history_first_sample)
  then have base: "get_baseline db t metric_name 5 = Inr (Some x)"
    by (simp add: get_baseline_def baseline_of_def median_def)
  have flow: "0 \<le> x * a_threshold a \<longrightarrow>
            (\<exists>regs. w_all_regressions (snd (ingest clock a w (JStr t) (JObj items)))
                      = w_all_regressions w @ regs
                    \<and> (\<forall>f \<in> set regs. f_metric f \<noteq> metric_name))"
  proof
    assume sign: "0 \<le> x * a_threshold a"
    show "\<exists>regs. w_all_regressions (snd (ingest clock a w (JStr t) (JObj items)))
                      = w_all_regressions w @ regs
                    \<and> (\<forall>f \<in> set regs. f_metric f \<noteq> metric_name)"
    proof (cases "check_items db t (a_threshold a) items []")
      case (Inl e)
      then have "w_all_regressions (snd (ingest clock a w (JStr t) (JObj items)))
          = w_all_regressions w @ []"
        by (simp add: ingest_object db_def [symmetric] Let_def)
      then show ?thesis by (intro exI [of _ "[]"]) simp
    next
      case (Inr out)
      then have res: "w_all_regressions (snd (ingest clock a w (JStr t) (JObj items)))
          = w_all_regressions w @ out"
        by (simp add: ingest_object db_def [symmetric] Let_def)
      from check_items_origin [OF Inr] have origin:
        "\<forall>f \<in> set out. \<exists>v nv b. (f_metric f, v) \<in> set items \<and> number_value v = Some nv
           \<and> get_baseline db t (f_metric f) 5 = Inr (Some b) \<and> nv > b * (1 + a_threshold a)"
        by simp
      have "\<forall>f \<in> set out. f_metric f \<noteq> metric_name"
      proof
        fix f assume f: "f \<in> set out"
        show "f_metric f \<noteq> metric_name"
        proof
          assume eq: "f_metric f = metric_name"
          from origin f obtain v' nv b where o:
            "(f_metric f, v') \<in> set items" "number_value v' = Some nv"
            "get_baseline db t (f_metric f) 5 = Inr (Some b)" "nv > b * (1 + a_threshold a)"
            by blast
          have "v' = v"
            using assms(3,4) o(1) eq by (metis eq_key_imp_eq_value)
          then have "nv = x" using o(2) assms(5) by simp
          moreover have "b = x" using o(3) base eq by simp
          ultimately have "x > x * (1 + a_threshold a)" using o(4) by simp
          then have "x * a_threshold a < 0" by (simp add: algebra_simps)
          with sign show False by simp
        qed
      qed
      with res show ?thesis by blast
    qed
  qed
  from base flow show ?thesis unfolding db_def by blast
qed

theorem no_history_flow_witness:
  "store_inv (w_store empty_world)
   \<and> matching (w_store empty_world) ''t'' ''m'' = []
   \<and> distinct (map fst [(''m'', JInt 7), (''note'', JStr ''x'')])
   \<and> number_value (JInt 7) = Some 7
   \<and> (0 :: real) \<le> 7 * a_threshold default_args
   \<and> get_baseline
        (snd (add_measurement (w_store empty_world) ''t'' (a_commit default_args)
               (JObj [(''m'', JInt 7), (''note'', JStr ''x'')]) 0))
        ''t'' ''m'' 5 = Inr (Some 7)
   \<and> (\<exists>regs. w_all_regressions
                (snd (ingest (\<lambda>k. 0) default_args empty_world (JStr ''t'')
                       (JObj [(''m'', JInt 7), (''note'', JStr ''x'')])))
              = w_all_regressions empty_world @ regs
            \<and> list_all (\<lambda>f. f_metric f \<noteq> ''m'') regs)"
proof -
  have inv: "store_inv (w_store empty_world)"
    by (simp add: empty_world_def store_inv_def empty_store_def)
  have none: "matching (w_store empty_world) ''t'' ''m'' = []"
    by (simp add: empty_world_def empty_store_def matching_def joined_def)
  have d: "distinct (map fst [(''m'', JInt 7), (''note'', JStr ''x'')])" by simp
  have mem: "(''m'', JInt 7) \<in> set [(''m'', JInt 7), (''note'', JStr ''x'')]" by simp
  have n: "number_value (JInt 7) = Some 7" by simp
  have sign: "(0 :: real) \<le> 7 * a_threshold default_args" by (simp add: default_args_def)
  show ?thesis
    using no_history_flow [OF inv none d mem n, of default_args "\<lambda>k. 0"] inv none sign
    by (simp add: list_all_iff)
qed

section \<open>Booleans count as numbers\<close>

lemma number_value_bool_as_int: "number_value (bool_as_int v) = number_value v"
  by (cases v) auto

lemma numeric_items_bools: "numeric_items (bools_as_ints items) = numeric_items items"
  by (induction items rule: numeric_items.induct)
     (auto simp: bools_as_ints_def number_value_bool_as_int split: option.splits)

lemma numeric_items_member:
  "(k, v) \<in> set items \<Longrightarrow> number_value v = Some x \<Longrightarrow> (k, x) \<in> set (numeric_items items)"
  by (induction items rule: numeric_items.induct) (auto split: option.splits)

lemma check_items_bools:
  "check_items db t th (bools_as_ints items) regs = check_items db t th items regs"
proof (induction items arbitrary: regs)
  case Nil
  then show ?case by (simp add: bools_as_ints_def)
next
  case (Cons item rest)
  obtain k v where item: "item = (k, v)" by (cases item)
  have step: "bools_as_ints (item # rest) = (k, bool_as_int v) # bools_as_ints rest"
    by (simp add: bools_as_ints_def item)
  have "check_items db t th (bools_as_ints (item # rest)) regs =
      check_items db t th ((k, bool_as_int v) # bools_as_ints rest) regs"
    by (simp only: step)
  also have "\<dots> = check_items db t th ((k, v) # rest) regs"
    using Cons.IH
    by (simp add: number_value_bool_as_int split: option.splits sum.splits)
  finally show ?case by (simp only: item)
qed

text \<open>
  C10. A boolean in a metrics payload is a number at the public interface: it passes the
  numeric test with the value 1 or 0, \<open>add_measurement\<close> stores a sample with that value
  for it, and both \<open>add_measurement\<close> and \<open>check_regression\<close> treat a payload exactly
  as they treat the same payload with each boolean replaced by the integer 1 or 0.
\<close>

theorem booleans_are_numbers:
  "number_value (JBool b) = Some (if b then 1 else 0)
   \<and> ((k, JBool b) \<in> set items \<longrightarrow>
        \<lparr>m_benchmark_id = next_rowid (benchmarks_table db), m_metric_name = k,
         m_value = (if b then 1 else 0), m_unit = None\<rparr>
          \<in> set (metrics_table (snd (add_measurement db t c (JObj items) now))))
   \<and> metrics_table (snd (add_measurement db t c (JObj (bools_as_ints items)) now))
       = metrics_table (snd (add_measurement db t c (JObj items) now))
   \<and> check_regression db t (JObj (bools_as_ints items)) threshold
       = check_regression db t (JObj items) threshold"
proof -
  have stored: "(k, JBool b) \<in> set items \<longrightarrow>
        \<lparr>m_benchmark_id = next_rowid (benchmarks_table db), m_metric_name = k,
         m_value = (if b then 1 else 0), m_unit = None\<rparr>
          \<in> set (metrics_table (snd (add_measurement db t c (JObj items) now)))"
  proof
    assume "(k, JBool b) \<in> set items"
    then have "(k, if b then 1 else 0) \<in> set (numeric_items items)"
      by (rule numeric_items_member) simp
    then have "\<lparr>m_benchmark_id = next_rowid (benchmarks_table db), m_metric_name = k,
         m_value = (if b then 1 else 0), m_unit = None\<rparr>
          \<in> set (sample_rows (next_rowid (benchmarks_table db)) items)"
      unfolding sample_rows_def by (force simp: image_iff)
    then show "\<lparr>m_benchmark_id = next_rowid (benchmarks_table db), m_metric_name = k,
         m_value = (if b then 1 else 0), m_unit = None\<rparr>
          \<in> set (metrics_table (snd (add_measurement db t c (JObj items) now)))"
      by (simp add: add_measurement_metrics)
  qed
  have same: "metrics_table (snd (add_measurement db t c (JObj (bools_as_ints items)) now))
       = metrics_table (snd (add_measurement db t c (JObj items) now))"
    by (simp add: add_measurement_metrics sample_rows_def numeric_items_bools)
  have check: "check_regression db t (JObj (bools_as_ints items)) threshold
       = check_regression db t (JObj items) threshold"
    by (simp add: check_regression_def check_items_bools)
  from stored same check show ?thesis by simp
qed

theorem booleans_are_numbers_witness:
  "(''m'', JBool True) \<in> set [(''m'', JBool True)]
   \<and> \<lparr>m_benchmark_id = 2, m_metric_name = ''m'', m_value = 1, m_unit = None\<rparr>
        \<in> set (metrics_table
                 (snd (add_measurement (store_with (JFloat (1 / 2))) ''t'' ''c1''
                        (JObj [(''m'', JBool True)]) 1)))
   \<and> check_regression (store_with (JFloat (1 / 2))) ''t'' (JObj [(''m'', JBool True)]) (5 / 100)
       = Inr [\<lparr>f_test = ''t'', f_metric = ''m'', f_baseline = 1 / 2, f_new = 1,
               f_regression_pct = 100\<rparr>]"
proof -
  have rid: "next_rowid (benchmarks_table (store_with (JFloat (1 / 2)))) = 2"
    using store_with_eq [of "JFloat (1 / 2)" "1 / 2"] by (simp add: next_rowid_def)
  have b: "get_baseline (store_with (JFloat (1 / 2))) ''t'' ''m'' 5 = Inr (Some (1 / 2))"
    using get_baseline_store_with [of "JFloat (1 / 2)" "1 / 2"] by simp
  have c: "check_regression (store_with (JFloat (1 / 2))) ''t'' (JObj [(''m'', JInt 1)]) (5 / 100)
       = Inr [\<lparr>f_test = ''t'', f_metric = ''m'', f_baseline = 1 / 2, f_new = 1,
               f_regression_pct = 100\<rparr>]"
    using check_regression_single [OF b, of "JInt 1" 1 "5 / 100"] by (simp add: classify_def)
  show ?thesis
    using booleans_are_numbers [of True "''m''" "[(''m'', JBool True)]"
        "store_with (JFloat (1 / 2))" "''t''" "''c1''" 1 "5 / 100"] rid c
    by (simp add: bools_as_ints_def)
qed

section \<open>The report\<close>

lemma write_rows_concat: "write_rows f regs = f @ concat (map report_row regs)"
  by (induction regs arbitrary: f) simp_all

lemma digit_cases:
  "d < 10 \<Longrightarrow> d = 0 \<or> d = 1 \<or> d = 2 \<or> d = 3 \<or> d = 4 \<or> d = 5 \<or> d = 6 \<or> d = 7 \<or> d = 8 \<or> d = (9 :: nat)"
  by arith

lemma is_digit_digit_char: "d < 10 \<Longrightarrow> is_digit (digit_char d)"
  using digit_cases [of d] by (auto simp: is_digit_def digit_char_def)

lemma digit_value_digit_char: "d < 10 \<Longrightarrow> digit_value (digit_char d) = d"
  using digit_cases [of d] by (auto simp: digit_value_def digit_char_def)

lemma decimal_digits: "list_all is_digit (decimal n)"
proof (induction n rule: decimal.induct)
  case (1 n)
  show ?case
  proof (cases "n < 10")
    case True
    then show ?thesis by (simp add: decimal.simps [of n] is_digit_digit_char)
  next
    case False
    then show ?thesis
      using 1 by (simp add: decimal.simps [of n] is_digit_digit_char)
  qed
qed

lemma digits_value_snoc: "digits_value (s @ [ch]) = 10 * digits_value s + digit_value ch"
  by (simp add: digits_value_def)

lemma digits_value_decimal: "digits_value (decimal n) = n"
proof (induction n rule: decimal.induct)
  case (1 n)
  show ?case
  proof (cases "n < 10")
    case True
    then show ?thesis
      by (simp add: decimal.simps [of n] digits_value_def digit_value_digit_char)
  next
    case False
    then have "digits_value (decimal n) = 10 * (n div 10) + n mod 10"
      using 1 by (simp add: decimal.simps [of n] digits_value_snoc digit_value_digit_char)
    then show ?thesis by simp
  qed
qed

lemma length_decimal: "n < 10 ^ k \<Longrightarrow> 0 < k \<Longrightarrow> length (decimal n) \<le> k"
proof (induction n arbitrary: k rule: decimal.induct)
  case (1 n)
  show ?case
  proof (cases "n < 10")
    case True
    then show ?thesis using 1(3) by (simp add: decimal.simps [of n])
  next
    case False
    obtain j where k: "k = Suc j" using 1(3) by (cases k) auto
    have "j \<noteq> 0"
    proof
      assume "j = 0"
      then have "n < 10" using 1(2) k by simp
      with False show False by simp
    qed
    moreover have "n div 10 < 10 ^ j" using 1(2) k by (simp add: less_mult_imp_div_less)
    ultimately have "length (decimal (n div 10)) \<le> j"
      using 1(1) [OF False, of j] by simp
    then show ?thesis using False k by (simp add: decimal.simps [of n])
  qed
qed

lemma digits_value_zeros: "digits_value (replicate k (CHR ''0'') @ s) = digits_value s"
proof -
  have z: "digit_value (CHR ''0'') = 0" by (simp add: digit_value_def)
  have "foldl (\<lambda>acc ch. 10 * acc + digit_value ch) 0 (replicate k (CHR ''0'')) = 0"
    by (induction k) (simp_all add: z)
  then show ?thesis by (simp add: digits_value_def)
qed

lemma zero_pad_props:
  assumes "length s \<le> w" and "list_all is_digit s"
  shows "length (zero_pad w s) = w" and "list_all is_digit (zero_pad w s)"
    and "digits_value (zero_pad w s) = digits_value s"
proof -
  show "length (zero_pad w s) = w" using assms(1) by (simp add: zero_pad_def)
  have "is_digit (CHR ''0'')" by (simp add: is_digit_def)
  then show "list_all is_digit (zero_pad w s)"
    using assms(2) by (auto simp: zero_pad_def list_all_iff)
  show "digits_value (zero_pad w s) = digits_value s"
    by (simp add: zero_pad_def digits_value_zeros)
qed

lemma round_half_even_bound: "\<bar>of_int (round_half_even y) - y\<bar> \<le> 1 / 2"
proof -
  have "of_int \<lfloor>y\<rfloor> \<le> y" and "y < of_int \<lfloor>y\<rfloor> + 1" by linarith+
  then show ?thesis
    by (auto simp: round_half_even_def Let_def)
qed

lemma round_half_even_nonneg: "0 \<le> y \<Longrightarrow> 0 \<le> round_half_even y"
proof -
  assume "0 \<le> y"
  then have "0 \<le> \<lfloor>y\<rfloor>" by simp
  then show ?thesis by (auto simp: round_half_even_def Let_def)
qed

lemma format_f_shape:
  assumes "0 < prec"
  shows "\<exists>ip fp. format_f prec x = (if x < 0 then ''-'' else []) @ ip @ ''.'' @ fp
           \<and> length fp = prec \<and> list_all is_digit ip \<and> list_all is_digit fp
           \<and> \<bar>real (digits_value ip) + real (digits_value fp) / 10 ^ prec - \<bar>x\<bar>\<bar>
               \<le> 1 / (2 * 10 ^ prec)"
proof -
  define p :: nat where "p = 10 ^ prec"
  define y where "y = \<bar>x\<bar> * 10 ^ prec"
  define n where "n = nat (round_half_even y)"
  define ip where "ip = decimal (n div p)"
  define fp where "fp = zero_pad prec (decimal (n mod p))"
  have ppos: "0 < p" by (simp add: p_def)
  have "n mod p < 10 ^ prec" using ppos by (simp add: p_def)
  then have len: "length (decimal (n mod p)) \<le> prec"
    using assms by (rule length_decimal)
  have fmt: "format_f prec x = (if x < 0 then ''-'' else []) @ ip @ ''.'' @ fp"
    using assms by (simp add: format_f_def Let_def ip_def fp_def n_def y_def p_def)
  have lfp: "length fp = prec" and dfp: "list_all is_digit fp"
    and vfp: "digits_value fp = n mod p"
    unfolding fp_def using zero_pad_props [OF len decimal_digits]
    by (simp_all add: digits_value_decimal)
  have dip: "list_all is_digit ip" and vip: "digits_value ip = n div p"
    by (simp_all add: ip_def decimal_digits digits_value_decimal)
  have "0 \<le> y" by (simp add: y_def)
  then have "0 \<le> round_half_even y" by (rule round_half_even_nonneg)
  then have rn: "real n = of_int (round_half_even y)" by (simp add: n_def)
  have "real n = real (n div p * p + n mod p)" by simp
  then have "real n = real (n div p) * real p + real (n mod p)"
    by (simp only: of_nat_add of_nat_mult)
  then have "real (n div p) + real (n mod p) / real p = real n / real p"
    using ppos by (simp add: field_simps)
  then have "real (digits_value ip) + real (digits_value fp) / 10 ^ prec - \<bar>x\<bar>
      = (real n - y) / real p"
    using ppos by (simp add: vip vfp y_def p_def field_simps)
  moreover have "\<bar>(real n - y) / real p\<bar> \<le> (1 / 2) / real p"
  proof -
    have "\<bar>real n - y\<bar> \<le> 1 / 2"
      using round_half_even_bound [of y] by (simp only: rn)
    then have "\<bar>real n - y\<bar> / real p \<le> (1 / 2) / real p"
      using ppos by (intro divide_right_mono) auto
    then show ?thesis using ppos by simp
  qed
  ultimately have "\<bar>real (digits_value ip) + real (digits_value fp) / 10 ^ prec - \<bar>x\<bar>\<bar>
      \<le> 1 / (2 * 10 ^ prec)"
    by (simp add: p_def)
  with fmt lfp dip dfp show ?thesis by blast
qed

lemma replicate_two: "replicate 2 x = [x, x]"
  by (simp add: numeral_2_eq_2)

lemma classify_delta:
  assumes "classify t k b nv th = Inr (Some reg)"
  shows "f_baseline reg \<noteq> 0 \<and> f_baseline reg * (1 + th) < f_new reg
       \<and> f_regression_pct reg = (f_new reg - f_baseline reg) / f_baseline reg * 100"
proof -
  have c: "nv > b * (1 + th)" and z: "b \<noteq> 0"
    using assms by (auto simp: classify_def split: if_splits)
  then have "reg = \<lparr>f_test = t, f_metric = k, f_baseline = b, f_new = nv,
      f_regression_pct = (nv - b) / b * 100\<rparr>"
    using assms by (simp add: classify_def)
  then show ?thesis using c z by simp
qed

lemma check_items_delta:
  "check_items db t th items regs = Inr out \<Longrightarrow>
   \<exists>new. out = regs @ new \<and>
     (\<forall>f \<in> set new. f_baseline f \<noteq> 0 \<and> f_baseline f * (1 + th) < f_new f
        \<and> f_regression_pct f = (f_new f - f_baseline f) / f_baseline f * 100)"
proof (induction items arbitrary: regs)
  case Nil
  then show ?case by simp
next
  case (Cons item rest)
  obtain k v where item: "item = (k, v)" by (cases item)
  show ?case
  proof (cases "number_value v")
    case None
    then have "check_items db t th rest regs = Inr out" using Cons.prems item by simp
    from Cons.IH [OF this] show ?thesis .
  next
    case (Some nv)
    note nv = Some
    show ?thesis
    proof (cases "get_baseline db t k 5")
      case (Inl e)
      then show ?thesis using Cons.prems item nv by simp
    next
      case (Inr ob)
      show ?thesis
      proof (cases ob)
        case None
        then have "check_items db t th rest regs = Inr out"
          using Cons.prems item nv Inr by simp
        from Cons.IH [OF this] show ?thesis .
      next
        case (Some b)
        note b = Some
        show ?thesis
        proof (cases "classify t k b nv th")
          case (Inl e)
          then show ?thesis using Cons.prems item nv Inr b by simp
        next
          case (Inr oreg)
          note cl = Inr
          show ?thesis
          proof (cases oreg)
            case None
            then have "check_items db t th rest regs = Inr out"
              using Cons.prems item nv \<open>get_baseline db t k 5 = Inr ob\<close> b cl by simp
            from Cons.IH [OF this] show ?thesis .
          next
            case (Some reg)
            then have "check_items db t th rest (regs @ [reg]) = Inr out"
              using Cons.prems item nv \<open>get_baseline db t k 5 = Inr ob\<close> b cl by simp
            from Cons.IH [OF this] obtain new where new: "out = (regs @ [reg]) @ new"
              "\<forall>f \<in> set new. f_baseline f \<noteq> 0 \<and> f_baseline f * (1 + th) < f_new f
                 \<and> f_regression_pct f = (f_new f - f_baseline f) / f_baseline f * 100"
              by blast
            have "f_baseline reg \<noteq> 0 \<and> f_baseline reg * (1 + th) < f_new reg
                \<and> f_regression_pct reg = (f_new reg - f_baseline reg) / f_baseline reg * 100"
              using cl Some by (intro classify_delta [of t k b nv th]) simp
            with new(2) have "\<forall>f \<in> set (reg # new). f_baseline f \<noteq> 0
                \<and> f_baseline f * (1 + th) < f_new f
                \<and> f_regression_pct f = (f_new f - f_baseline f) / f_baseline f * 100"
              by simp
            moreover have "out = regs @ (reg # new)" using new(1) by simp
            ultimately show ?thesis by blast
          qed
        qed
      qed
    qed
  qed
qed

lemma delta_positive:
  assumes "0 < (b :: real)" and "0 \<le> th" and "b * (1 + th) < nv"
  shows "0 < (nv - b) / b * 100"
proof -
  have "0 \<le> b" using assms(1) by simp
  then have "0 \<le> b * th" using assms(2) by (rule mult_nonneg_nonneg)
  then have "b \<le> b * (1 + th)" by (simp add: algebra_simps)
  then have "b < nv" using assms(3) by simp
  then show ?thesis using assms(1) by simp
qed

lemma format_examples:
  "format_f 3 100 = ''100.000''" "format_f 3 120 = ''120.000''" "format_f 1 20 = ''20.0''"
  "format_f 3 (- 100) = ''-100.000''" "format_f 3 (- 50) = ''-50.000''"
  "format_f 1 (- 50) = ''-50.0''" "format_f 3 (10501 / 100) = ''105.010''"
  "format_f 1 (- 1 / 8) = ''-0.1''"
  "format_f (Suc 0) 20 = ''20.0''" "format_f (Suc 0) (- 50) = ''-50.0''"
  by (simp_all add: format_f_def round_half_even_def decimal.simps zero_pad_def digit_char_def
      replicate_two)

text \<open>
  C9, as stated, fails: the delta is not always positive. With a baseline of -100 and a
  threshold of 0.05 the new value -50 is flagged, its delta is -50, and the row shows it
  as \<open>+-50.0%\<close>: the plus sign is a literal of the row.
\<close>

theorem negative_delta_rendered:
  "check_regression (store_with (JInt (- 100))) ''t'' (JObj [(''m'', JInt (- 50))]) (5 / 100)
     = Inr [\<lparr>f_test = ''t'', f_metric = ''m'', f_baseline = - 100, f_new = - 50,
             f_regression_pct = - 50\<rparr>]
   \<and> report_row \<lparr>f_test = ''t'', f_metric = ''m'', f_baseline = - 100, f_new = - 50,
                  f_regression_pct = - 50\<rparr>
       = ''| t | m | -100.000 | -50.000 | +-50.0% |'' @ [CHR 0x0A]
   \<and> \<not> (0 :: real) < - 50"
proof -
  have b: "get_baseline (store_with (JInt (- 100))) ''t'' ''m'' 5 = Inr (Some (- 100))"
    using get_baseline_store_with [of "JInt (- 100)" "- 100"] by simp
  have "check_regression (store_with (JInt (- 100))) ''t'' (JObj [(''m'', JInt (- 50))]) (5 / 100)
     = Inr [\<lparr>f_test = ''t'', f_metric = ''m'', f_baseline = - 100, f_new = - 50,
             f_regression_pct = - 50\<rparr>]"
    using check_regression_single [OF b, of "JInt (- 50)" "- 50" "5 / 100"]
    by (simp add: classify_def)
  moreover have "report_row \<lparr>f_test = ''t'', f_metric = ''m'', f_baseline = - 100, f_new = - 50,
                  f_regression_pct = - 50\<rparr>
       = ''| t | m | -100.000 | -50.000 | +-50.0% |'' @ [CHR 0x0A]"
    by (simp add: report_row_def format_examples newline_def)
  ultimately show ?thesis by simp
qed

text \<open>
  C9, amended. For no findings the report is the fixed line
  \<open># (check mark) No Performance Regressions Detected\<close>. Otherwise it is the header with
  the table head, then one row per finding in the order of the findings, then an empty
  line and the failure marker \<open>**REGRESSION**\<close>. A row gives the test, the metric, the
  baseline and the new value with 3 digits after the point and the delta with 1 digit
  after the point, behind a plus sign that is written whatever the sign of the delta. A
  number formatted with \<open>prec\<close> digits has exactly that many digits after the point and
  differs from the number by at most half a unit of the last digit. The delta of a
  finding of \<open>check_regression\<close> is positive whenever its baseline is positive and the
  threshold is not negative.
\<close>

theorem report_rendering:
  "report_text [] =
     ''# '' @ [CHR 0xE2, CHR 0x9C, CHR 0x85] @ '' No Performance Regressions Detected''
     @ [CHR 0x0A]
   \<and> (regressions \<noteq> [] \<longrightarrow>
        report_text regressions
          = ''# '' @ [CHR 0xE2, CHR 0x9D, CHR 0x8C] @ '' Performance Regressions Detected''
            @ [CHR 0x0A, CHR 0x0A]
            @ ''| Test | Metric | Baseline | New | Regression |'' @ [CHR 0x0A]
            @ ''|------|--------|----------|-----|------------|'' @ [CHR 0x0A]
            @ concat (map report_row regressions)
            @ [CHR 0x0A] @ ''**REGRESSION**'')
   \<and> generate_report fs regressions output_file output_file = Some (report_text regressions)
   \<and> report_row reg =
        ''| '' @ f_test reg @ '' | '' @ f_metric reg @ '' | '' @ format_f 3 (f_baseline reg)
        @ '' | '' @ format_f 3 (f_new reg) @ '' | '' @ ''+'' @ format_f 1 (f_regression_pct reg)
        @ ''% |'' @ [CHR 0x0A]
   \<and> (0 < prec \<longrightarrow>
        (\<exists>ip fp. format_f prec x = (if x < 0 then ''-'' else []) @ ip @ ''.'' @ fp
           \<and> length fp = prec \<and> list_all is_digit ip \<and> list_all is_digit fp
           \<and> \<bar>real (digits_value ip) + real (digits_value fp) / 10 ^ prec - \<bar>x\<bar>\<bar>
               \<le> 1 / (2 * 10 ^ prec)))
   \<and> (check_regression db t metrics threshold = Inr found \<and> 0 \<le> threshold \<longrightarrow>
        (\<forall>f \<in> set found. 0 < f_baseline f \<longrightarrow> 0 < f_regression_pct f))"
proof -
  have empty: "report_text [] =
     ''# '' @ [CHR 0xE2, CHR 0x9C, CHR 0x85] @ '' No Performance Regressions Detected''
     @ [CHR 0x0A]"
    by (simp add: report_text_def success_report_def newline_def)
  have rows: "regressions \<noteq> [] \<longrightarrow>
        report_text regressions
          = ''# '' @ [CHR 0xE2, CHR 0x9D, CHR 0x8C] @ '' Performance Regressions Detected''
            @ [CHR 0x0A, CHR 0x0A]
            @ ''| Test | Metric | Baseline | New | Regression |'' @ [CHR 0x0A]
            @ ''|------|--------|----------|-----|------------|'' @ [CHR 0x0A]
            @ concat (map report_row regressions)
            @ [CHR 0x0A] @ ''**REGRESSION**''"
    by (simp add: report_text_def write_rows_concat report_header_def failure_marker_def
        newline_def)
  have written: "generate_report fs regressions output_file output_file
      = Some (report_text regressions)"
    by (simp add: generate_report_def)
  have row: "report_row reg =
        ''| '' @ f_test reg @ '' | '' @ f_metric reg @ '' | '' @ format_f 3 (f_baseline reg)
        @ '' | '' @ format_f 3 (f_new reg) @ '' | '' @ ''+'' @ format_f 1 (f_regression_pct reg)
        @ ''% |'' @ [CHR 0x0A]"
    by (simp add: report_row_def newline_def)
  have shape: "0 < prec \<longrightarrow>
        (\<exists>ip fp. format_f prec x = (if x < 0 then ''-'' else []) @ ip @ ''.'' @ fp
           \<and> length fp = prec \<and> list_all is_digit ip \<and> list_all is_digit fp
           \<and> \<bar>real (digits_value ip) + real (digits_value fp) / 10 ^ prec - \<bar>x\<bar>\<bar>
               \<le> 1 / (2 * 10 ^ prec))"
    using format_f_shape [of prec x] by blast
  have positive: "check_regression db t metrics threshold = Inr found \<and> 0 \<le> threshold \<longrightarrow>
        (\<forall>f \<in> set found. 0 < f_baseline f \<longrightarrow> 0 < f_regression_pct f)"
  proof
    assume h: "check_regression db t metrics threshold = Inr found \<and> 0 \<le> threshold"
    then obtain items where "metrics = JObj items"
      and run: "check_items db t threshold items [] = Inr found"
      by (cases metrics) (simp_all add: check_regression_def)
    from check_items_delta [OF run] have
      "\<forall>f \<in> set found. f_baseline f \<noteq> 0 \<and> f_baseline f * (1 + threshold) < f_new f
        \<and> f_regression_pct f = (f_new f - f_baseline f) / f_baseline f * 100"
      by simp
    then show "\<forall>f \<in> set found. 0 < f_baseline f \<longrightarrow> 0 < f_regression_pct f"
      using h delta_positive [of _ threshold] by fastforce
  qed
  from empty rows written row shape positive show ?thesis by blast
qed

theorem report_rendering_witness:
  "[sort_finding] \<noteq> []
   \<and> report_text [sort_finding]
       = ''# '' @ [CHR 0xE2, CHR 0x9D, CHR 0x8C] @ '' Performance Regressions Detected''
         @ [CHR 0x0A, CHR 0x0A]
         @ ''| Test | Metric | Baseline | New | Regression |'' @ [CHR 0x0A]
         @ ''|------|--------|----------|-----|------------|'' @ [CHR 0x0A]
         @ ''| BM_Sort | real_time | 100.000 | 120.000 | +20.0% |'' @ [CHR 0x0A]
         @ [CHR 0x0A] @ ''**REGRESSION**''
   \<and> (0 :: nat) < 3
   \<and> format_f 3 (10501 / 100) = ''105.010''
   \<and> format_f 1 (- 1 / 8) = ''-0.1''
   \<and> check_regression (store_with (JInt 100)) ''t'' (JObj [(''m'', JInt 120)]) (5 / 100)
       = Inr [\<lparr>f_test = ''t'', f_metric = ''m'', f_baseline = 100, f_new = 120,
               f_regression_pct = 20\<rparr>]
   \<and> (0 :: real) \<le> 5 / 100 \<and> (0 :: real) < 100 \<and> (0 :: real) < 20"
proof -
  have b: "get_baseline (store_with (JInt 100)) ''t'' ''m'' 5 = Inr (Some 100)"
    using get_baseline_store_with [of "JInt 100" 100] by simp
  have c: "check_regression (store_with (JInt 100)) ''t'' (JObj [(''m'', JInt 120)]) (5 / 100)
       = Inr [\<lparr>f_test = ''t'', f_metric = ''m'', f_baseline = 100, f_new = 120,
               f_regression_pct = 20\<rparr>]"
    using check_regression_single [OF b, of "JInt 120" 120 "5 / 100"] by (simp add: classify_def)
  show ?thesis
    using report_rendering [of "[sort_finding]" Map.empty "''report.md''" sort_finding 3
        "10501 / 100" "store_with (JInt 100)" "''t''" "JObj [(''m'', JInt 120)]" "5 / 100"
        "[\<lparr>f_test = ''t'', f_metric = ''m'', f_baseline = 100, f_new = 120,
           f_regression_pct = 20\<rparr>]"] c format_examples
    by (simp add: sort_finding_def)
qed

section \<open>The run over the input files\<close>


















text \<open>
  C5, as stated, fails: for an empty list of files \<open>main\<close> returns before the report is
  generated. In a file system without a report the run ends with the exit code 0 and
  still no report.
\<close>

theorem empty_glob_no_report:
  "fst (main tick default_args [] empty_world) = 0
   \<and> w_files (snd (main tick default_args [] empty_world)) (a_output default_args) = None
   \<and> w_files (snd (main tick default_args [] empty_world)) (a_output default_args)
       \<noteq> Some success_report"
  by (simp add: main_def empty_world_def Let_def)

text \<open>
  C5, amended. When the glob matches no artifact, the run succeeds trivially: a warning
  is printed and the exit code is 0. No report is rendered: the file at the output
  destination, like the store, is left as it was.
\<close>

theorem empty_glob_run:
  "main clock a [] w =
     (0, w\<lparr>w_all_regressions := [], w_stdout := w_stdout w @ [Warning_no_files (a_new a)]\<rparr>)
   \<and> w_files (snd (main clock a [] w)) = w_files w
   \<and> w_store (snd (main clock a [] w)) = w_store w
   \<and> w_stderr (snd (main clock a [] w)) = w_stderr w"
  by (simp add: main_def Let_def)

end
